theory Spec2Isabelle
  imports Complex_Main "HOL-Library.Log_Nat" "HOL-Library.AList" "HOL-Library.Monad_Syntax"
begin

section \<open>Python values used by send\_sensor\_data.py\<close>

text \<open>
  The exceptions the program can raise. None of them is caught anywhere in the file
  (the only \<open>try\<close> wraps the topic lookup), so a raised exception ends the run.
\<close>

datatype exn =
  ValueError | IndexError | KeyError | ZeroDivisionError | UnicodeDecodeError | OverflowError

subsection \<open>Floats\<close>

text \<open>
  A Python float is an IEEE binary64 value: a finite number, an infinity or a NaN.
  Finite values are carried as rationals; the result of an arithmetic operation is the
  exact result rounded to the nearest binary64 value, ties to even (\<open>fl_round\<close>).
  The sign of a zero is not kept: the program only compares floats and passes them on.
\<close>

datatype pyfloat = Fin rat | PInf | NInf | NaN

definition pow2 :: "int \<Rightarrow> rat" where
  "pow2 k = (if 0 \<le> k then 2 ^ nat k else 1 / 2 ^ nat (- k))"

definition ilog2 :: "rat \<Rightarrow> int" where
  \<comment> \<open>for \<open>q > 0\<close>: the integer \<open>k\<close> with \<open>2^k \<le> q < 2^(k+1)\<close>\<close>
  "ilog2 q =
     (let (a, b) = quotient_of q; k = bitlen a - bitlen b
      in if pow2 k \<le> q then k else k - 1)"

definition round_half_even :: "rat \<Rightarrow> int" where
  "round_half_even x =
     (let f = \<lfloor>x\<rfloor>; d = x - of_int f
      in if d < 1 / 2 then f
         else if 1 / 2 < d then f + 1
         else if even f then f else f + 1)"

definition fl_round :: "rat \<Rightarrow> pyfloat" where
  \<comment> \<open>the significand \<open>m\<close> has 53 bits, the exponent \<open>e\<close> of its last bit lies between
      \<open>-1074\<close> (subnormals) and \<open>971\<close>; a result of \<open>2^1024\<close> or more is an infinity\<close>
  "fl_round q =
     (if q = 0 then Fin 0
      else
        let e = max (ilog2 \<bar>q\<bar> - 52) (- 1074);
            m = round_half_even (\<bar>q\<bar> / pow2 e);
            r = of_int m * pow2 e
        in if 971 < e \<or> (e = 971 \<and> 2 ^ 53 \<le> m) then (if 0 < q then PInf else NInf)
           else Fin (if 0 < q then r else - r))"

definition int_truediv :: "int \<Rightarrow> pyfloat \<Rightarrow> exn + pyfloat" where
  \<comment> \<open>\<open>n / x\<close> for an int \<open>n\<close> below \<open>2^53\<close> and a float \<open>x\<close>\<close>
  "int_truediv n x =
     (case x of
        Fin q \<Rightarrow> if q = 0 then Inl ZeroDivisionError else Inr (fl_round (of_int n / q))
      | PInf \<Rightarrow> Inr (Fin 0)
      | NInf \<Rightarrow> Inr (Fin 0)
      | NaN \<Rightarrow> Inr NaN)"

definition float_sub_int :: "pyfloat \<Rightarrow> int \<Rightarrow> pyfloat" where
  \<comment> \<open>\<open>x - n\<close> for a float \<open>x\<close> and an int \<open>n\<close> below \<open>2^53\<close>\<close>
  "float_sub_int x n =
     (case x of
        Fin q \<Rightarrow> fl_round (q - of_int n)
      | PInf \<Rightarrow> PInf
      | NInf \<Rightarrow> NInf
      | NaN \<Rightarrow> NaN)"

definition float_gt_int :: "pyfloat \<Rightarrow> int \<Rightarrow> bool" where
  \<comment> \<open>\<open>x > n\<close>: exact, and false for a NaN\<close>
  "float_gt_int x n =
     (case x of
        Fin q \<Rightarrow> of_int n < q
      | PInf \<Rightarrow> True
      | NInf \<Rightarrow> False
      | NaN \<Rightarrow> False)"

subsection \<open>Datetimes\<close>

text \<open>
  A naive \<open>datetime\<close> is an instant with microsecond resolution: the number of
  microseconds since 0001-01-01 00:00:00. Subtracting two of them gives a
  \<open>timedelta\<close>, which Python keeps normalised: \<open>0 \<le> seconds < 86400\<close> and
  \<open>0 \<le> microseconds < 1000000\<close>, the sign being carried by \<open>days\<close>.
\<close>

type_synonym datetime = int

record timedelta =
  days :: int
  seconds :: int
  microseconds :: int

definition datetime_sub :: "datetime \<Rightarrow> datetime \<Rightarrow> timedelta" where
  "datetime_sub a b =
     (let us = a - b
      in \<lparr>days = us div 86400000000,
          seconds = (us mod 86400000000) div 1000000,
          microseconds = us mod 1000000\<rparr>)"

subsection \<open>Sleeping\<close>

text \<open>
  \<open>time.sleep(secs)\<close> does not accept every float. CPython converts the duration to a
  count of nanoseconds held in a signed 64-bit integer: it multiplies by \<open>10^9\<close> in
  floating point, rounds the product away from zero to a whole number and raises
  \<open>OverflowError\<close> when that number does not fit, which is the case for an infinity and
  for every duration from about \<open>9.22e9\<close> seconds on. A NaN and a negative duration
  raise \<open>ValueError\<close>. For every other duration the call returns once the time has
  passed. \<open>time_sleep\<close> is the exception raised, if any.
\<close>

definition time_sleep :: "pyfloat \<Rightarrow> exn option" where
  "time_sleep secs =
     (case secs of
        NaN \<Rightarrow> Some ValueError
      | PInf \<Rightarrow> Some OverflowError
      | NInf \<Rightarrow> Some OverflowError
      | Fin q \<Rightarrow>
          (case fl_round (q * 1000000000) of
             Fin d \<Rightarrow>
               (let ns = (if 0 \<le> d then \<lceil>d\<rceil> else \<lfloor>d\<rfloor>)
                in if ns < - (2 ^ 63) \<or> 2 ^ 63 \<le> ns then Some OverflowError
                   else if ns < 0 then Some ValueError
                   else None)
           | _ \<Rightarrow> Some OverflowError))"

section \<open>The clock model\<close>

text \<open>
  \<^verbatim>\<open>
   def compute_sleep_secs(obs_time):
      time_elapsed = (datetime.datetime.utcnow() - programStart).seconds
      sim_time_elapsed = (obs_time - firstObsTime).seconds / speedFactor
      return sim_time_elapsed - time_elapsed
  \<close>
  \<open>sleep_secs_at\<close> is this arithmetic for a given reading \<open>now\<close> of the wall clock.
\<close>

definition sleep_secs_at ::
  "datetime \<Rightarrow> datetime \<Rightarrow> pyfloat \<Rightarrow> datetime \<Rightarrow> datetime \<Rightarrow> exn + pyfloat" where
  "sleep_secs_at programStart firstObsTime speedFactor obs_time now =
     (let time_elapsed = seconds (datetime_sub now programStart)
      in case int_truediv (seconds (datetime_sub obs_time firstObsTime)) speedFactor of
           Inl e \<Rightarrow> Inl e
         | Inr sim_time_elapsed \<Rightarrow> Inr (float_sub_int sim_time_elapsed time_elapsed))"

section \<open>Library calls\<close>

text \<open>
  The program reads its input through four library functions: \<open>bytes.decode('utf-8')\<close>,
  \<open>datetime.datetime.strptime(_, TIME_FORMAT)\<close> with
  \<open>TIME_FORMAT = '%Y-%m-%d %H:%M:%S'\<close>, \<open>float(_)\<close> and \<open>int(_)\<close>. Their code is
  not part of the repository, so they are parameters of the model: each returns a value
  or the exception it raises. The theorems hold for every such library.
\<close>

type_synonym bytes = string

record pylib =
  decode_utf8 :: "bytes \<Rightarrow> exn + string"
  strptime_TIME_FORMAT :: "string \<Rightarrow> exn + datetime"
  py_float :: "string \<Rightarrow> exn + pyfloat"
  py_int :: "string \<Rightarrow> exn + int"

text \<open>\<open>s.split(c)\<close> for a one-character separator: never empty, \<open>''.split(',') = ['']\<close>.\<close>

fun split_on :: "char \<Rightarrow> string \<Rightarrow> string list" where
  "split_on c [] = [[]]"
| "split_on c (x # xs) =
     (if x = c then [] # split_on c xs
      else (case split_on c xs of
              [] \<Rightarrow> [[x]]
            | y # ys \<Rightarrow> (x # y) # ys))"

text \<open>
  \<^verbatim>\<open>
  def get_timestamp(line):
     line = line.decode('utf-8')
     timestamp = line.split(',')[0]
     return datetime.datetime.strptime(timestamp, TIME_FORMAT)
  \<close>
\<close>

definition get_timestamp :: "pylib \<Rightarrow> bytes \<Rightarrow> exn + datetime" where
  "get_timestamp L line =
     (case decode_utf8 L line of
        Inl e \<Rightarrow> Inl e
      | Inr s \<Rightarrow>
          (case split_on CHR '','' s of
             [] \<Rightarrow> Inl IndexError
           | timestamp # _ \<Rightarrow> strptime_TIME_FORMAT L timestamp))"

subsection \<open>The encoded record\<close>

text \<open>
  \<open>line_dict\<close> is a dict from field names to values; Python dicts keep insertion
  order, so it is an association list. \<open>json.dumps\<close> writes the dict out in that order:
  a JSON text is represented by the dict it serialises, and \<open>json.loads(t)[k]\<close> is a
  lookup.
\<close>

datatype jvalue = JStr string | JFloat pyfloat | JInt int

type_synonym json = "(string \<times> jvalue) list"

definition fields_csv :: "string list" where
  \<comment> \<open>the local \<open>fields\<close> of \<open>convert_csv_to_json\<close>\<close>
  "fields_csv = split_on CHR '','' ''timestamp,latitude,longitude,freeway_id,freeway_dir,lane,speed''"

definition to_float :: "pylib \<Rightarrow> jvalue \<Rightarrow> exn + jvalue" where
  \<comment> \<open>\<open>float(v)\<close>; \<open>v\<close> is a str at every call\<close>
  "to_float L v =
     (case v of
        JStr s \<Rightarrow> (case py_float L s of Inl e \<Rightarrow> Inl e | Inr x \<Rightarrow> Inr (JFloat x))
      | JFloat x \<Rightarrow> Inr (JFloat x)
      | JInt n \<Rightarrow> Inr (JFloat (fl_round (of_int n))))"

definition to_int :: "pylib \<Rightarrow> jvalue \<Rightarrow> exn + jvalue" where
  \<comment> \<open>\<open>int(v)\<close>; \<open>v\<close> is a str at every call\<close>
  "to_int L v =
     (case v of
        JStr s \<Rightarrow> (case py_int L s of Inl e \<Rightarrow> Inl e | Inr n \<Rightarrow> Inr (JInt n))
      | JInt n \<Rightarrow> Inr (JInt n)
      | JFloat x \<Rightarrow> (case x of Fin q \<Rightarrow> Inr (JInt (if 0 \<le> q then \<lfloor>q\<rfloor> else \<lceil>q\<rceil>))
                             | _ \<Rightarrow> Inl ValueError))"

definition convert_item :: "(jvalue \<Rightarrow> exn + jvalue) \<Rightarrow> string \<Rightarrow> json \<Rightarrow> exn + json" where
  \<comment> \<open>\<open>line_dict[key] = conv(line_dict[key])\<close>\<close>
  "convert_item conv key line_dict =
     (case map_of line_dict key of
        None \<Rightarrow> Inl KeyError
      | Some v \<Rightarrow>
          (case conv v of
             Inl e \<Rightarrow> Inl e
           | Inr v' \<Rightarrow> Inr (AList.update key v' line_dict)))"

text \<open>
  \<^verbatim>\<open>
  def convert_csv_to_json(line):
     line_arr = line.decode('utf-8').split(",")
     fields = "timestamp,latitude,longitude,freeway_id,freeway_dir,lane,speed".split(",")
     line_dict = dict(zip(fields,line_arr))
     line_dict['latitude'] = float(line_dict['latitude'])
     line_dict['longitude'] = float(line_dict['longitude'])
     line_dict['freeway_id'] = int(line_dict['freeway_id'])
     line_dict['lane'] = int(line_dict['lane'])
     line_dict['speed'] = float(line_dict['speed'])
     return json.dumps(line_dict)
  \<close>
\<close>

definition convert_csv_to_json :: "pylib \<Rightarrow> bytes \<Rightarrow> exn + json" where
  "convert_csv_to_json L line =
     (case decode_utf8 L line of
        Inl e \<Rightarrow> Inl e
      | Inr s \<Rightarrow>
          (let line_arr = split_on CHR '','' s;
               line_dict = map (\<lambda>(k, v). (k, JStr v)) (zip fields_csv line_arr)
           in case convert_item (to_float L) ''latitude'' line_dict of
                Inl e \<Rightarrow> Inl e
              | Inr d1 \<Rightarrow>
           (case convert_item (to_float L) ''longitude'' d1 of
                Inl e \<Rightarrow> Inl e
              | Inr d2 \<Rightarrow>
           (case convert_item (to_int L) ''freeway_id'' d2 of
                Inl e \<Rightarrow> Inl e
              | Inr d3 \<Rightarrow>
           (case convert_item (to_int L) ''lane'' d3 of
                Inl e \<Rightarrow> Inl e
              | Inr d4 \<Rightarrow> convert_item (to_float L) ''speed'' d4)))))"

section \<open>The world: input file, wall clock and effects\<close>

text \<open>
  The effects of a run, in the order they happen: what is printed, logged, handed to the
  Pub/Sub client and slept. The calls into the client, \<open>print\<close> and \<open>logging\<close>
  are taken to return normally. A \<open>Sleep\<close> event is a call of \<open>time.sleep\<close> that
  returned; a call that raises leaves no event.
\<close>

datatype event =
    Print json
  | LogPublishing nat jvalue
  | Publish string json
  | LogSleeping pyfloat
  | Sleep pyfloat
  | GetTopic string
  | CreateTopic string
  | LogReusing string
  | LogCreating string
  | LogSending datetime

text \<open>
  \<open>pos\<close> is the position of the file object \<open>ifp\<close>, counted in lines: the index of the
  next line \<open>readline\<close> returns. The content of the file is a list of lines, the same
  for the whole run. \<open>ticks\<close> counts the calls of \<open>datetime.datetime.utcnow()\<close>: the
  wall clock is a function \<open>clk\<close> from the number of the call to the instant it
  returns, so every publish latency and every sleep is some choice of \<open>clk\<close>.
\<close>

record world =
  pos :: nat
  ticks :: nat
  trace :: "event list"

definition emit :: "event \<Rightarrow> world \<Rightarrow> world" where
  "emit ev w = w\<lparr>trace := trace w @ [ev]\<rparr>"

definition utcnow :: "(nat \<Rightarrow> datetime) \<Rightarrow> world \<Rightarrow> datetime \<times> world" where
  "utcnow clk w = (clk (ticks w), w\<lparr>ticks := Suc (ticks w)\<rparr>)"

definition readline :: "bytes list \<Rightarrow> world \<Rightarrow> bytes \<times> world" where
  \<comment> \<open>the empty bytes object at the end of the file\<close>
  "readline src w =
     (if pos w < length src then (src ! pos w, w\<lparr>pos := Suc (pos w)\<rparr>) else ([], w))"

definition compute_sleep_secs ::
  "(nat \<Rightarrow> datetime) \<Rightarrow> datetime \<Rightarrow> datetime \<Rightarrow> pyfloat \<Rightarrow> datetime \<Rightarrow> world
     \<Rightarrow> (exn + pyfloat) \<times> world" where
  "compute_sleep_secs clk programStart firstObsTime speedFactor obs_time w =
     (let (now, w') = utcnow clk w
      in (sleep_secs_at programStart firstObsTime speedFactor obs_time now, w'))"

section \<open>Publishing\<close>

text \<open>
  \<^verbatim>\<open>
  def publish(publisher, topic, events):
     numobs = len(events)
     print(events[0])
     if numobs > 0:
         logging.info('Publishing {0} events from {1}'.format(numobs, json.loads(events[0])['timestamp']))
         for event_data in events:
           publisher.publish(topic,event_data.encode())
  \<close>
  \<open>events[0]\<close> is evaluated before the test of \<open>numobs\<close>.
\<close>

definition publish :: "string \<Rightarrow> json list \<Rightarrow> world \<Rightarrow> exn option \<times> world" where
  "publish topic events w =
     (let numobs = length events
      in case events of
           [] \<Rightarrow> (Some IndexError, w)
         | first # _ \<Rightarrow>
             (let w1 = emit (Print first) w
              in if numobs > 0 then
                   (case map_of first ''timestamp'' of
                      None \<Rightarrow> (Some KeyError, w1)
                    | Some ts \<Rightarrow>
                        (None, foldl (\<lambda>w' event_data. emit (Publish topic event_data) w')
                                 (emit (LogPublishing numobs ts) w1) events))
                 else (None, w1)))"

section \<open>The simulation driver\<close>

text \<open>
  The body of the \<open>if compute_sleep_secs(obs_time) > 1\<close> statement:
  \<^verbatim>\<open>
          publish(publisher, topic, topublish) # notify accumulated messages
          topublish = list() # empty out list
          to_sleep_secs = compute_sleep_secs(obs_time)
          if to_sleep_secs > 0:
             logging.info('Sleeping {} seconds'.format(to_sleep_secs))
             time.sleep(to_sleep_secs)
  \<close>
  It returns the exception raised, if any, the value of \<open>topublish\<close> and the world.
  An exception raised by \<open>time.sleep\<close> comes after the flush and the log line.
\<close>

definition flush_and_sleep ::
  "(nat \<Rightarrow> datetime) \<Rightarrow> string \<Rightarrow> datetime \<Rightarrow> datetime \<Rightarrow> pyfloat \<Rightarrow> datetime
     \<Rightarrow> json list \<Rightarrow> world \<Rightarrow> exn option \<times> json list \<times> world" where
  "flush_and_sleep clk topic firstObsTime programStart speedFactor obs_time topublish w =
     (case publish topic topublish w of
        (Some e, w1) \<Rightarrow> (Some e, topublish, w1)
      | (None, w1) \<Rightarrow>
          (case compute_sleep_secs clk programStart firstObsTime speedFactor obs_time w1 of
             (Inl e, w2) \<Rightarrow> (Some e, [], w2)
           | (Inr to_sleep_secs, w2) \<Rightarrow>
               if float_gt_int to_sleep_secs 0
               then (let w3 = emit (LogSleeping to_sleep_secs) w2
                     in case time_sleep to_sleep_secs of
                          Some e \<Rightarrow> (Some e, [], w3)
                        | None \<Rightarrow> (None, [], emit (Sleep to_sleep_secs) w3))
               else (None, [], w2)))"

text \<open>
  One turn of the loop, for the line just read:
  \<^verbatim>\<open>
       event_data = line   # entire line of input CSV is the raw message
       obs_time = get_timestamp(line) # from first column
       if compute_sleep_secs(obs_time) > 1:
          ...
       event_data_json = convert_csv_to_json(event_data) #Put into Row JSON format.
       topublish.append(event_data_json)
  \<close>
\<close>

definition loop_body ::
  "pylib \<Rightarrow> (nat \<Rightarrow> datetime) \<Rightarrow> string \<Rightarrow> datetime \<Rightarrow> datetime \<Rightarrow> pyfloat \<Rightarrow> bytes
     \<Rightarrow> json list \<Rightarrow> world \<Rightarrow> exn option \<times> json list \<times> world" where
  "loop_body L clk topic firstObsTime programStart speedFactor line topublish w =
     (let event_data = line
      in case get_timestamp L line of
           Inl e \<Rightarrow> (Some e, topublish, w)
         | Inr obs_time \<Rightarrow>
             (case compute_sleep_secs clk programStart firstObsTime speedFactor obs_time w of
                (Inl e, w1) \<Rightarrow> (Some e, topublish, w1)
              | (Inr secs, w1) \<Rightarrow>
                  (case (if float_gt_int secs 1
                         then flush_and_sleep clk topic firstObsTime programStart speedFactor
                                obs_time topublish w1
                         else (None, topublish, w1)) of
                     (Some e, topublish', w2) \<Rightarrow> (Some e, topublish', w2)
                   | (None, topublish', w2) \<Rightarrow>
                       (case convert_csv_to_json L event_data of
                          Inl e \<Rightarrow> (Some e, topublish', w2)
                        | Inr event_data_json \<Rightarrow>
                            (None, topublish' @ [event_data_json], w2)))))"

text \<open>
  \<open>for line in ifp\<close>: each turn reads the next line of the file, which moves the
  position by one, and runs the body; an exception leaves the loop.
\<close>

fun simulate_loop ::
  "pylib \<Rightarrow> (nat \<Rightarrow> datetime) \<Rightarrow> string \<Rightarrow> datetime \<Rightarrow> datetime \<Rightarrow> pyfloat \<Rightarrow> bytes list
     \<Rightarrow> json list \<Rightarrow> world \<Rightarrow> exn option \<times> json list \<times> world" where
  "simulate_loop L clk topic firstObsTime programStart speedFactor [] topublish w =
     (None, topublish, w)"
| "simulate_loop L clk topic firstObsTime programStart speedFactor (line # rest) topublish w =
     (case loop_body L clk topic firstObsTime programStart speedFactor line topublish
             (w\<lparr>pos := Suc (pos w)\<rparr>) of
        (Some e, topublish', w') \<Rightarrow> (Some e, topublish', w')
      | (None, topublish', w') \<Rightarrow>
          simulate_loop L clk topic firstObsTime programStart speedFactor rest topublish' w')"

text \<open>
  \<^verbatim>\<open>
  def simulate(topic, ifp, firstObsTime, programStart, speedFactor):
     ...
     topublish = list()
     for line in ifp:
         ...
     # left-over records; notify again
     publish(publisher, topic, topublish)
  \<close>
\<close>

definition simulate ::
  "pylib \<Rightarrow> (nat \<Rightarrow> datetime) \<Rightarrow> string \<Rightarrow> bytes list \<Rightarrow> datetime \<Rightarrow> datetime \<Rightarrow> pyfloat
     \<Rightarrow> world \<Rightarrow> exn option \<times> world" where
  "simulate L clk topic src firstObsTime programStart speedFactor w =
     (case simulate_loop L clk topic firstObsTime programStart speedFactor
             (drop (pos w) src) [] w of
        (Some e, topublish, w') \<Rightarrow> (Some e, w')
      | (None, topublish, w') \<Rightarrow> publish topic topublish w')"

text \<open>
  \<^verbatim>\<open>
  def peek_timestamp(ifp):
     pos = ifp.tell()
     line = ifp.readline()
     ifp.seek(pos)
     return get_timestamp(line)
  \<close>
\<close>

definition peek_timestamp :: "pylib \<Rightarrow> bytes list \<Rightarrow> world \<Rightarrow> (exn + datetime) \<times> world" where
  "peek_timestamp L src w =
     (let p = pos w;
          (line, w1) = readline src w;
          w2 = w1\<lparr>pos := p\<rparr>
      in (get_timestamp L line, w2))"

text \<open>
  The main program, from the topic lookup on. \<open>speedFactor\<close> and \<open>project\<close> are the
  parsed arguments (\<open>type=float\<close> accepts every float), \<open>topic_exists\<close> tells whether
  \<open>publisher.get_topic\<close> returns or raises, and \<open>src\<close> is the content of the input file.
\<close>

definition TOPIC :: string where
  "TOPIC = ''sandiego''"

definition topic_path :: "string \<Rightarrow> string \<Rightarrow> string" where
  "topic_path project topic = ''projects/'' @ project @ ''/topics/'' @ topic"

definition init_world :: world where
  "init_world = \<lparr>pos = 0, ticks = 0, trace = []\<rparr>"

definition main ::
  "pylib \<Rightarrow> (nat \<Rightarrow> datetime) \<Rightarrow> bool \<Rightarrow> pyfloat \<Rightarrow> string \<Rightarrow> bytes list
     \<Rightarrow> exn option \<times> world" where
  "main L clk topic_exists speedFactor project src =
     (let event_type = topic_path project TOPIC;
          w1 = emit (GetTopic event_type) init_world;
          w2 = (if topic_exists then emit (LogReusing TOPIC) w1
                else emit (LogCreating TOPIC) (emit (CreateTopic event_type) w1));
          (programStartTime, w3) = utcnow clk w2;
          (header, w4) = readline src w3;
          (r, w5) = peek_timestamp L src w4
      in case r of
           Inl e \<Rightarrow> (Some e, w5)
         | Inr firstObsTime \<Rightarrow>
             simulate L clk event_type src firstObsTime programStartTime speedFactor
               (emit (LogSending firstObsTime) w5))"

text \<open>What a trace hands to the Pub/Sub client, and what it sleeps, in order.\<close>

fun sent :: "event list \<Rightarrow> json list" where
  "sent [] = []"
| "sent (Publish t j # evs) = j # sent evs"
| "sent (_ # evs) = sent evs"

fun slept :: "event list \<Rightarrow> pyfloat list" where
  "slept [] = []"
| "slept (Sleep x # evs) = x # slept evs"
| "slept (_ # evs) = slept evs"

section \<open>The library on ASCII text\<close>

text \<open>
  An instance of the library for running the model on concrete files. It follows
  CPython 3 on ASCII input: \<open>decode\<close> is the identity there, \<open>strptime\<close> matches the
  regular expression CPython builds for \<open>'%Y-%m-%d %H:%M:%S'\<close> and then builds the
  \<open>datetime\<close>, \<open>float\<close> and \<open>int\<close> read a signed decimal literal between optional
  white space. Input outside ASCII, and the other spellings \<open>float\<close> and \<open>int\<close> accept
  (exponents, \<open>inf\<close>, \<open>nan\<close>, underscores), are not covered: the instance rejects them,
  and no example below uses them.
\<close>

definition digit :: "char \<Rightarrow> int option" where
  "digit c = (let n = (of_char c :: int) in if 48 \<le> n \<and> n \<le> 57 then Some (n - 48) else None)"

definition is_space :: "char \<Rightarrow> bool" where
  \<comment> \<open>the white space \<open>float\<close> and \<open>int\<close> skip around an ASCII literal: space, \<open>\t\<close>,
      \<open>\n\<close>, \<open>\v\<close>, \<open>\f\<close>, \<open>\r\<close>\<close>
  "is_space c = (let n = (of_char c :: int) in n = 32 \<or> (9 \<le> n \<and> n \<le> 13))"

definition re_space :: "char \<Rightarrow> bool" where
  \<comment> \<open>the ASCII characters \<open>\s\<close> matches in a \<open>str\<close> pattern: those of \<open>str.isspace\<close>,
      which adds the separators \<open>\x1c\<close> to \<open>\x1f\<close>\<close>
  "re_space c = (let n = (of_char c :: int) in is_space c \<or> (28 \<le> n \<and> n \<le> 31))"

fun num1 :: "(int \<Rightarrow> bool) \<Rightarrow> string \<Rightarrow> (int \<times> string) option" where
  "num1 p (a # rest) =
     (case digit a of Some x \<Rightarrow> if p x then Some (x, rest) else None | None \<Rightarrow> None)"
| "num1 p [] = None"

fun num2 :: "(int \<Rightarrow> bool) \<Rightarrow> (int \<Rightarrow> bool) \<Rightarrow> string \<Rightarrow> (int \<times> string) option" where
  "num2 p q (a # b # rest) =
     (case (digit a, digit b) of
        (Some x, Some y) \<Rightarrow> if p x \<and> q y then Some (10 * x + y, rest) else None
      | _ \<Rightarrow> None)"
| "num2 p q _ = None"

definition orelse :: "'a option \<Rightarrow> 'a option \<Rightarrow> 'a option" where
  "orelse a b = (case a of Some x \<Rightarrow> Some x | None \<Rightarrow> b)"

definition lit :: "char \<Rightarrow> string \<Rightarrow> string option" where
  "lit c s = (case s of x # rest \<Rightarrow> if x = c then Some rest else None | [] \<Rightarrow> None)"

definition spaces1 :: "string \<Rightarrow> string option" where
  \<comment> \<open>\<open>\s+\<close>\<close>
  "spaces1 s = (case s of x # rest \<Rightarrow> if re_space x then Some (dropWhile re_space rest) else None
                | [] \<Rightarrow> None)"

definition any_digit :: "int \<Rightarrow> bool" where
  "any_digit x = True"

definition re_Y :: "string \<Rightarrow> (int \<times> string) option" where
  \<comment> \<open>\<open>\d\d\d\d\<close>\<close>
  "re_Y s = do {
     (hi, s1) \<leftarrow> num2 any_digit any_digit s;
     (lo, s2) \<leftarrow> num2 any_digit any_digit s1;
     Some (100 * hi + lo, s2) }"

definition re_m :: "string \<Rightarrow> (int \<times> string) option" where
  \<comment> \<open>\<open>1[0-2]|0[1-9]|[1-9]\<close>\<close>
  "re_m s = orelse (num2 (\<lambda>x. x = 1) (\<lambda>y. y \<le> 2) s)
           (orelse (num2 (\<lambda>x. x = 0) (\<lambda>y. 1 \<le> y) s)
                   (num1 (\<lambda>x. 1 \<le> x) s))"

definition re_d :: "string \<Rightarrow> (int \<times> string) option" where
  \<comment> \<open>\<open>3[0-1]|[1-2]\d|0[1-9]|[1-9]| [1-9]\<close>\<close>
  "re_d s = orelse (num2 (\<lambda>x. x = 3) (\<lambda>y. y \<le> 1) s)
           (orelse (num2 (\<lambda>x. 1 \<le> x \<and> x \<le> 2) any_digit s)
           (orelse (num2 (\<lambda>x. x = 0) (\<lambda>y. 1 \<le> y) s)
           (orelse (num1 (\<lambda>x. 1 \<le> x) s)
                   (do { s1 \<leftarrow> lit CHR '' '' s; num1 (\<lambda>x. 1 \<le> x) s1 }))))"

definition re_H :: "string \<Rightarrow> (int \<times> string) option" where
  \<comment> \<open>\<open>2[0-3]|[0-1]\d|\d\<close>\<close>
  "re_H s = orelse (num2 (\<lambda>x. x = 2) (\<lambda>y. y \<le> 3) s)
           (orelse (num2 (\<lambda>x. x \<le> 1) any_digit s)
                   (num1 any_digit s))"

definition re_M :: "string \<Rightarrow> (int \<times> string) option" where
  \<comment> \<open>\<open>[0-5]\d|\d\<close>\<close>
  "re_M s = orelse (num2 (\<lambda>x. x \<le> 5) any_digit s) (num1 any_digit s)"

definition re_S :: "string \<Rightarrow> (int \<times> string) option" where
  \<comment> \<open>\<open>6[0-1]|[0-5]\d|\d\<close>\<close>
  "re_S s = orelse (num2 (\<lambda>x. x = 6) (\<lambda>y. y \<le> 1) s)
           (orelse (num2 (\<lambda>x. x \<le> 5) any_digit s)
                   (num1 any_digit s))"

definition match_TIME_FORMAT :: "string \<Rightarrow> (int \<times> int \<times> int \<times> int \<times> int \<times> int) option" where
  \<comment> \<open>the whole string has to match: otherwise ``unconverted data remains''\<close>
  "match_TIME_FORMAT s = do {
     (Y, s1) \<leftarrow> re_Y s;
     s2 \<leftarrow> lit CHR ''-'' s1;
     (m, s3) \<leftarrow> re_m s2;
     s4 \<leftarrow> lit CHR ''-'' s3;
     (d, s5) \<leftarrow> re_d s4;
     s6 \<leftarrow> spaces1 s5;
     (H, s7) \<leftarrow> re_H s6;
     s8 \<leftarrow> lit CHR '':'' s7;
     (M, s9) \<leftarrow> re_M s8;
     s10 \<leftarrow> lit CHR '':'' s9;
     (S, s11) \<leftarrow> re_S s10;
     if s11 = [] then Some (Y, m, d, H, M, S) else None }"

definition is_leap :: "int \<Rightarrow> bool" where
  "is_leap y = (y mod 4 = 0 \<and> (y mod 100 \<noteq> 0 \<or> y mod 400 = 0))"

definition days_in_month :: "int \<Rightarrow> int \<Rightarrow> int" where
  "days_in_month y m =
     (if m = 2 then (if is_leap y then 29 else 28)
      else if m = 4 \<or> m = 6 \<or> m = 9 \<or> m = 11 then 30 else 31)"

definition days_before_year :: "int \<Rightarrow> int" where
  "days_before_year y = (y - 1) * 365 + (y - 1) div 4 - (y - 1) div 100 + (y - 1) div 400"

definition days_before_month :: "int \<Rightarrow> int \<Rightarrow> int" where
  "days_before_month y m = sum_list (map (days_in_month y) [1..m - 1])"

definition mk_datetime :: "int \<Rightarrow> int \<Rightarrow> int \<Rightarrow> int \<Rightarrow> int \<Rightarrow> int \<Rightarrow> exn + datetime" where
  \<comment> \<open>\<open>datetime(Y, m, d, H, M, S)\<close>\<close>
  "mk_datetime Y m d H M S =
     (if 1 \<le> Y \<and> Y \<le> 9999 \<and> 1 \<le> m \<and> m \<le> 12 \<and> 1 \<le> d \<and> d \<le> days_in_month Y m
         \<and> 0 \<le> H \<and> H \<le> 23 \<and> 0 \<le> M \<and> M \<le> 59 \<and> 0 \<le> S \<and> S \<le> 59
      then Inr (((days_before_year Y + days_before_month Y m + d - 1) * 86400
                  + (H * 3600 + M * 60 + S)) * 1000000)
      else Inl ValueError)"

definition ascii_strptime :: "string \<Rightarrow> exn + datetime" where
  "ascii_strptime s =
     (case match_TIME_FORMAT s of
        None \<Rightarrow> Inl ValueError
      | Some (Y, m, d, H, M, S) \<Rightarrow> mk_datetime Y m d H M S)"

definition strip :: "string \<Rightarrow> string" where
  "strip s = rev (dropWhile is_space (rev (dropWhile is_space s)))"

fun digits_value :: "int \<Rightarrow> string \<Rightarrow> int option" where
  \<comment> \<open>the number a string of digits denotes, after the digits read so far\<close>
  "digits_value acc [] = Some acc"
| "digits_value acc (c # cs) =
     (case digit c of Some x \<Rightarrow> digits_value (10 * acc + x) cs | None \<Rightarrow> None)"

definition unsigned_decimal :: "string \<Rightarrow> rat option" where
  \<comment> \<open>\<open>digits\<close>, \<open>digits.\<close>, \<open>digits.digits\<close> or \<open>.digits\<close>\<close>
  "unsigned_decimal s =
     (let ip = takeWhile (\<lambda>c. c \<noteq> CHR ''.'') s;
          rest = dropWhile (\<lambda>c. c \<noteq> CHR ''.'') s;
          fp = (case rest of [] \<Rightarrow> [] | _ # t \<Rightarrow> t)
      in if ip = [] \<and> fp = [] then None
         else (case (digits_value 0 ip, digits_value 0 fp) of
                 (Some i, Some f) \<Rightarrow> Some (of_int i + of_int f / 10 ^ length fp)
               | _ \<Rightarrow> None))"

definition signed :: "(string \<Rightarrow> 'a option) \<Rightarrow> ('a \<Rightarrow> 'a) \<Rightarrow> string \<Rightarrow> 'a option" where
  "signed p neg s =
     (case s of
        c # t \<Rightarrow> if c = CHR ''-'' then map_option neg (p t)
                 else if c = CHR ''+'' then p t else p s
      | [] \<Rightarrow> None)"

definition ascii_float :: "string \<Rightarrow> exn + pyfloat" where
  "ascii_float s =
     (case signed unsigned_decimal uminus (strip s) of
        None \<Rightarrow> Inl ValueError
      | Some q \<Rightarrow> Inr (fl_round q))"

definition ascii_int :: "string \<Rightarrow> exn + int" where
  "ascii_int s =
     (case signed (\<lambda>t. if t = [] then None else digits_value 0 t) uminus
             (strip s) of
        None \<Rightarrow> Inl ValueError
      | Some n \<Rightarrow> Inr n)"

definition ascii_decode :: "bytes \<Rightarrow> exn + string" where
  "ascii_decode b = (if list_all (\<lambda>c. (of_char c :: int) < 128) b then Inr b
                     else Inl UnicodeDecodeError)"

definition ascii_lib :: pylib where
  "ascii_lib = \<lparr>decode_utf8 = ascii_decode, strptime_TIME_FORMAT = ascii_strptime,
                py_float = ascii_float, py_int = ascii_int\<rparr>"

section \<open>Example input\<close>

text \<open>
  Rows in the layout of the data set, each ending in a newline as \<open>readline\<close> returns
  them, and the instant \<open>2008-11-01 00:00:00\<close>.
\<close>

definition nl :: string where
  "nl = [char_of (10 :: int)]"

definition rec_a :: bytes where
  "rec_a = ''2008-11-01 00:00:00,32.749679,-117.155519,163,S,1,71.2'' @ nl"

definition rec_b :: bytes where
  "rec_b = ''2008-11-01 00:00:00,32.780947,-117.091704,8,W,1,68.3'' @ nl"

definition rec_b1 :: bytes where
  "rec_b1 = ''2008-11-01 00:00:01,32.780947,-117.091704,8,W,1,68.3'' @ nl"

definition rec_c :: bytes where
  "rec_c = ''2008-11-01 00:00:02,32.716625,-117.165021,5,N,2,76.5'' @ nl"

definition rec_half :: bytes where
  \<comment> \<open>the second row with half a second added to its timestamp\<close>
  "rec_half = ''2008-11-01 00:00:00.5,32.780947,-117.091704,8,W,1,68.3'' @ nl"

definition header :: bytes where
  "header = ''TIMESTAMP,LATITUDE,LONGITUDE,FREEWAY_ID,FREEWAY_DIR,LANE,SPEED'' @ nl"

definition t0 :: datetime where
  "t0 = 63361094400000000"

definition row_a :: json where
  "row_a = [(''timestamp'', JStr ''2008-11-01 00:00:00''),
            (''latitude'', JFloat (Fin (2304553783451615 / 70368744177664))),
            (''longitude'', JFloat (Fin (- (4122043372756227 / 35184372088832)))),
            (''freeway_id'', JInt 163), (''freeway_dir'', JStr ''S''), (''lane'', JInt 1),
            (''speed'', JFloat (Fin (5010254585449677 / 70368744177664)))]"

definition row_b :: json where
  "row_b = [(''timestamp'', JStr ''2008-11-01 00:00:00''),
            (''latitude'', JFloat (Fin (1153377036672281 / 35184372088832))),
            (''longitude'', JFloat (Fin (- (2059899041025689 / 17592186044416)))),
            (''freeway_id'', JInt 8), (''freeway_dir'', JStr ''W''), (''lane'', JInt 1),
            (''speed'', JFloat (Fin (4806185227334451 / 70368744177664)))]"

definition row_b1 :: json where
  "row_b1 = [(''timestamp'', JStr ''2008-11-01 00:00:01''),
             (''latitude'', JFloat (Fin (1153377036672281 / 35184372088832))),
             (''longitude'', JFloat (Fin (- (2059899041025689 / 17592186044416)))),
             (''freeway_id'', JInt 8), (''freeway_dir'', JStr ''W''), (''lane'', JInt 1),
             (''speed'', JFloat (Fin (4806185227334451 / 70368744177664)))]"

definition row_c :: json where
  "row_c = [(''timestamp'', JStr ''2008-11-01 00:00:02''),
            (''latitude'', JFloat (Fin (4604455629963133 / 140737488355328))),
            (''longitude'', JFloat (Fin (- (4122377694659815 / 35184372088832)))),
            (''freeway_id'', JInt 5), (''freeway_dir'', JStr ''N''), (''lane'', JInt 2),
            (''speed'', JFloat (Fin (153 / 2)))]"

section \<open>The clock model in the words of the specification\<close>

text \<open>
  ``wallElapsed = whole seconds between now and programStart; simElapsed = whole
  seconds between obsTime and firstObsTime, divided by speedFactor; result =
  simElapsed - wallElapsed'', for a positive speed factor. The whole seconds between two
  instants are the time from the earlier to the later one, in seconds, without its
  fraction of a second: two instants a day and five seconds apart are 86405 whole
  seconds apart. The division is a floating-point division, and so is the subtraction.
\<close>

definition whole_seconds_between :: "datetime \<Rightarrow> datetime \<Rightarrow> int" where
  "whole_seconds_between later earlier = (later - earlier) div 1000000"

definition requiredSleepSeconds ::
  "datetime \<Rightarrow> datetime \<Rightarrow> rat \<Rightarrow> datetime \<Rightarrow> datetime \<Rightarrow> pyfloat" where
  "requiredSleepSeconds programStart firstObsTime speedFactor obsTime now =
     (let wallElapsed = whole_seconds_between now programStart;
          simElapsed = fl_round (of_int (whole_seconds_between obsTime firstObsTime) / speedFactor)
      in float_sub_int simElapsed wallElapsed)"

section \<open>The seconds field as arithmetic\<close>

text \<open>
  The \<open>seconds\<close> field of \<open>later - earlier\<close>, written without the detour through the
  microseconds of the day (lemma \<open>seconds_datetime_sub\<close> below).
\<close>

definition seconds_of_day :: "datetime \<Rightarrow> datetime \<Rightarrow> int" where
  "seconds_of_day later earlier = ((later - earlier) div 1000000) mod 86400"

section \<open>Speed factors that never reach the threshold\<close>

text \<open>
  A clock model is quiet when no required sleep it computes exceeds the threshold of one
  second, whatever the observation time and the reading of the wall clock.
\<close>

definition quiet :: "datetime \<Rightarrow> datetime \<Rightarrow> pyfloat \<Rightarrow> bool" where
  "quiet start first sf =
     (\<forall>obs now x. sleep_secs_at start first sf obs now = Inr x \<longrightarrow> \<not> float_gt_int x 1)"

section \<open>Properties\<close>

subsection \<open>Rounding\<close>

lemma pow2_pos: "0 < pow2 k"
  by (simp add: pow2_def)

lemma pow2_powi: "pow2 k = 2 powi k"
  by (simp add: pow2_def power_int_def field_simps)

lemma pow2_add: "pow2 (j + k) = pow2 j * pow2 k"
  by (simp add: pow2_powi power_int_add)

lemma pow2_mono: "j \<le> k \<Longrightarrow> pow2 j \<le> pow2 k"
  by (simp add: pow2_powi power_int_increasing)

lemma pow2_less_imp: "pow2 j < pow2 k \<Longrightarrow> j < k"
  using pow2_mono[of k j] by (cases "j < k") auto

lemma pow2_of_int: "0 \<le> k \<Longrightarrow> pow2 k = of_int (2 ^ nat k)"
  by (simp add: pow2_def)

lemma round_half_even_le_ceiling: "round_half_even x \<le> \<lceil>x\<rceil>"
  unfolding round_half_even_def Let_def by (auto simp: ceiling_altdef) 

lemma floor_le_round_half_even: "\<lfloor>x\<rfloor> \<le> round_half_even x"
  unfolding round_half_even_def Let_def by auto

lemma bitlen_lower_rat:
  assumes "0 < a"
  shows "pow2 (bitlen a - 1) \<le> of_int a"
proof -
  have "1 \<le> bitlen a" using assms by (auto simp: bitlen_alt_def)
  then have "pow2 (bitlen a - 1) = of_int (2 ^ nat (bitlen a - 1))"
    by (simp add: pow2_of_int)
  also have "\<dots> \<le> of_int a"
    using bitlen_bounds[OF assms] by (subst of_int_le_iff) simp
  finally show ?thesis .
qed

lemma bitlen_upper_rat:
  assumes "0 < b"
  shows "of_int b < pow2 (bitlen b)"
proof -
  have "(of_int b :: rat) < of_int (2 ^ nat (bitlen b))"
    using bitlen_bounds[OF assms] by (subst of_int_less_iff) simp
  then show ?thesis using bitlen_nonneg[of b] by (simp add: pow2_of_int)
qed

lemma ilog2_lower:
  assumes "0 < q"
  shows "pow2 (ilog2 q) \<le> q"
proof -
  obtain a b where ab: "quotient_of q = (a, b)" by (cases "quotient_of q")
  then have b: "0 < b" and q: "q = of_int a / of_int b"
    using quotient_of_denom_pos quotient_of_div by blast+
  with assms have a: "0 < a" by (simp add: zero_less_divide_iff)
  let ?k = "bitlen a - bitlen b"
  have "pow2 (?k - 1) \<le> q"
  proof -
    have "pow2 (?k - 1) * of_int b \<le> pow2 (?k - 1) * pow2 (bitlen b)"
      using bitlen_upper_rat[OF b] pow2_pos[of "?k - 1"] by simp
    also have "\<dots> = pow2 (bitlen a - 1)" by (simp flip: pow2_add)
    also have "\<dots> \<le> of_int a" by (rule bitlen_lower_rat[OF a])
    finally show ?thesis using b by (simp add: q pos_le_divide_eq)
  qed
  then show ?thesis using ab by (simp add: ilog2_def Let_def)
qed

lemma ilog2_upper:
  assumes "0 < q"
  shows "q < pow2 (ilog2 q + 1)"
proof -
  obtain a b where ab: "quotient_of q = (a, b)" by (cases "quotient_of q")
  then have b: "0 < b" and q: "q = of_int a / of_int b"
    using quotient_of_denom_pos quotient_of_div by blast+
  with assms have a: "0 < a" by (simp add: zero_less_divide_iff)
  let ?k = "bitlen a - bitlen b"
  have "q < pow2 (?k + 1)"
  proof -
    have "of_int a < pow2 (bitlen a)" by (rule bitlen_upper_rat[OF a])
    also have "\<dots> = pow2 (?k + 1) * pow2 (bitlen b - 1)" by (simp flip: pow2_add)
    also have "\<dots> \<le> pow2 (?k + 1) * of_int b"
      using bitlen_lower_rat[OF b] pow2_pos[of "?k + 1"] by simp
    finally show ?thesis using b by (simp add: q pos_divide_less_eq)
  qed
  then show ?thesis using ab by (auto simp: ilog2_def Let_def not_le)
qed

lemma fl_round_le:
  assumes "q \<le> of_int n" "0 \<le> n" "n < 2 ^ 53"
  shows "\<not> float_gt_int (fl_round q) n"
proof (cases "0 < q")
  case False
  show ?thesis
  proof (cases "q = 0")
    case True
    then show ?thesis using assms by (simp add: fl_round_def float_gt_int_def)
  next
    case nz: False
    let ?e = "max (ilog2 \<bar>q\<bar> - 52) (- 1074)"
    have "0 < \<bar>q\<bar> / pow2 ?e" using nz pow2_pos by simp
    then have "0 \<le> round_half_even (\<bar>q\<bar> / pow2 ?e)"
      using floor_le_round_half_even[of "\<bar>q\<bar> / pow2 ?e"]
      by (meson le_floor_iff less_imp_le of_int_0 order_trans zero_le_floor)
    then have "0 \<le> rat_of_int (round_half_even (\<bar>q\<bar> / pow2 ?e)) * pow2 ?e"
      using pow2_pos[of ?e] by simp
    then show ?thesis using False nz assms
      by (simp add: fl_round_def float_gt_int_def Let_def)
  qed
next
  case True
  let ?e = "max (ilog2 \<bar>q\<bar> - 52) (- 1074)"
  let ?m = "round_half_even (\<bar>q\<bar> / pow2 ?e)"
  have "pow2 (ilog2 q) \<le> q" by (rule ilog2_lower[OF True])
  also have "q < pow2 53"
  proof -
    have "rat_of_int n < of_int (2 ^ 53)" using assms(3) by (subst of_int_less_iff) simp
    then show ?thesis using assms(1) by (simp add: pow2_def)
  qed
  finally have "ilog2 q < 53" by (rule pow2_less_imp)
  then have e: "?e \<le> 0" using True by simp
  then have pe: "pow2 ?e * of_int (2 ^ nat (- ?e)) = 1"
    using pow2_add[of ?e "- ?e"] by (simp add: pow2_of_int pow2_def)
  have "\<bar>q\<bar> / pow2 ?e \<le> of_int n / pow2 ?e"
    using True assms(1) pow2_pos[of ?e] by (simp add: divide_right_mono)
  also have "of_int n / pow2 ?e = of_int (n * 2 ^ nat (- ?e))"
    using pe pow2_pos[of ?e] by (simp add: field_simps)
  finally have "\<lceil>\<bar>q\<bar> / pow2 ?e\<rceil> \<le> n * 2 ^ nat (- ?e)"
    by (simp only: ceiling_le_iff)
  then have "?m \<le> n * 2 ^ nat (- ?e)"
    using round_half_even_le_ceiling[of "\<bar>q\<bar> / pow2 ?e"] by linarith
  then have "rat_of_int ?m \<le> of_int (n * 2 ^ nat (- ?e))"
    by (simp only: of_int_le_iff)
  then have "rat_of_int ?m * pow2 ?e \<le> of_int (n * 2 ^ nat (- ?e)) * pow2 ?e"
    using pow2_pos[of ?e] by (simp add: mult_right_mono)
  also have "\<dots> = of_int n" using pe by (simp add: mult.assoc mult.commute)
  finally have le: "rat_of_int ?m * pow2 ?e \<le> of_int n" .
  moreover have "\<not> 971 < ?e" "?e \<noteq> 971" using e by linarith+
  ultimately show ?thesis using True
    by (simp add: fl_round_def float_gt_int_def Let_def not_less del: max_less_iff_conj)
qed

subsection \<open>Traces, publishing and the loop\<close>

lemma sent_append: "sent (xs @ ys) = sent xs @ sent ys"
  by (induction xs rule: sent.induct) auto

lemma slept_append: "slept (xs @ ys) = slept xs @ slept ys"
  by (induction xs rule: slept.induct) auto

lemma sent_map_Publish: "sent (map (Publish t) evs) = evs"
  by (induction evs) auto

lemma slept_map_Publish: "slept (map (Publish t) evs) = []"
  by (induction evs) auto

lemma foldl_emit_Publish:
  "foldl (\<lambda>w' event_data. w'\<lparr>trace := trace w' @ [Publish t event_data]\<rparr>) w evs
     = w\<lparr>trace := trace w @ map (Publish t) evs\<rparr>"
  by (induction evs arbitrary: w) auto

lemma publish_empty: "publish topic [] w = (Some IndexError, w)"
  by (simp add: publish_def)

lemma publish_ok:
  assumes "publish topic evs w = (None, w')"
  shows "\<exists>first rest ts. evs = first # rest \<and> map_of first ''timestamp'' = Some ts \<and>
           w' = w\<lparr>trace := trace w @ [Print first, LogPublishing (length evs) ts]
                                 @ map (Publish topic) evs\<rparr>"
  using assms
  by (auto simp: publish_def Let_def emit_def foldl_emit_Publish split: list.splits option.splits)

lemma publish_sent:
  assumes "publish topic evs w = (None, w')"
  shows "sent (trace w') = sent (trace w) @ evs" "slept (trace w') = slept (trace w)"
        "pos w' = pos w" "ticks w' = ticks w"
  using publish_ok[OF assms] by (auto simp: sent_append slept_append sent_map_Publish slept_map_Publish)

lemma compute_sleep_secs_eq:
  "compute_sleep_secs clk programStart firstObsTime speedFactor obs_time w =
     (sleep_secs_at programStart firstObsTime speedFactor obs_time (clk (ticks w)),
      w\<lparr>ticks := Suc (ticks w)\<rparr>)"
  by (simp add: compute_sleep_secs_def utcnow_def)

lemma flush_and_sleep_ok:
  assumes "flush_and_sleep clk topic first start sf obs tp w = (None, tp', w')"
  shows "tp' = [] \<and> sent (trace w') = sent (trace w) @ tp \<and> pos w' = pos w"
  using assms
  by (auto simp: flush_and_sleep_def compute_sleep_secs_eq emit_def sent_append Let_def
      split: prod.splits option.splits sum.splits if_splits dest: publish_sent)

lemma loop_body_ok:
  assumes "loop_body L clk topic first start sf line tp w = (None, tp', w')"
  shows "\<exists>j. convert_csv_to_json L line = Inr j \<and>
            sent (trace w') @ tp' = sent (trace w) @ tp @ [j] \<and> pos w' = pos w"
  using assms
  by (auto simp: loop_body_def compute_sleep_secs_eq
      split: prod.splits option.splits sum.splits if_splits dest!: flush_and_sleep_ok)

lemma simulate_loop_ok:
  assumes "simulate_loop L clk topic first start sf lines tp w = (None, tp', w')"
  shows "\<exists>rows. map (convert_csv_to_json L) lines = map Inr rows \<and>
            sent (trace w') @ tp' = sent (trace w) @ tp @ rows \<and>
            pos w' = pos w + length lines"
  using assms
proof (induction lines arbitrary: tp w)
  case Nil
  then show ?case by simp
next
  case (Cons line rest)
  from Cons.prems obtain tp1 w1 where
    body: "loop_body L clk topic first start sf line tp (w\<lparr>pos := Suc (pos w)\<rparr>) = (None, tp1, w1)"
    and rest: "simulate_loop L clk topic first start sf rest tp1 w1 = (None, tp', w')"
    by (auto split: prod.splits option.splits)
  from loop_body_ok[OF body] obtain j where
    j: "convert_csv_to_json L line = Inr j"
       "sent (trace w1) @ tp1 = sent (trace w) @ tp @ [j]" "pos w1 = Suc (pos w)"
    by auto
  from Cons.IH[OF rest] obtain rows where
    rows: "map (convert_csv_to_json L) rest = map Inr rows"
          "sent (trace w') @ tp' = sent (trace w1) @ tp1 @ rows"
          "pos w' = pos w1 + length rest"
    by auto
  show ?case
    by (rule exI[of _ "j # rows"]) (use j rows in \<open>simp flip: append_assoc\<close>)
qed

text \<open>
  Claim C1. When a run of \<open>simulate\<close> completes, what it handed to the Pub/Sub client,
  over all flushes inside the loop and the final one, is the encoding of every line the
  file still held, once each and in the order of the file.
\<close>

theorem simulate_pass_through:
  assumes "simulate L clk topic src firstObsTime programStart speedFactor w = (None, w')"
  shows "\<exists>rows. map (convert_csv_to_json L) (drop (pos w) src) = map Inr rows \<and>
           sent (trace w') = sent (trace w) @ rows"
proof -
  from assms obtain tp w1 where
    loop: "simulate_loop L clk topic firstObsTime programStart speedFactor (drop (pos w) src) [] w
             = (None, tp, w1)"
    and fin: "publish topic tp w1 = (None, w')"
    by (auto simp: simulate_def split: prod.splits option.splits)
  from simulate_loop_ok[OF loop] obtain rows where
    rows: "map (convert_csv_to_json L) (drop (pos w) src) = map Inr rows"
          "sent (trace w1) @ tp = sent (trace w) @ rows"
    by auto
  from publish_sent(1)[OF fin] rows show ?thesis by auto
qed

subsection \<open>Whole seconds\<close>

lemma mod_div_swap:
  fixes x c d :: int
  assumes "0 < c" "0 \<le> d"
  shows "(x mod (c * d)) div c = (x div c) mod d"
proof -
  have "x mod (c * d) = c * (x div c mod d) + x mod c"
    using assms by (simp add: zmod_zmult2_eq)
  then show ?thesis using assms by simp
qed

lemma seconds_datetime_sub:
  "seconds (datetime_sub a b) = seconds_of_day a b"
proof -
  have "(a - b) mod 86400000000 div 1000000 = ((a - b) div 1000000) mod 86400"
  proof -
    have "(a - b) mod (1000000 * 86400) div 1000000 = ((a - b) div 1000000) mod 86400"
      by (rule mod_div_swap) simp_all
    then show ?thesis by simp
  qed
  then show ?thesis by (simp add: datetime_sub_def seconds_of_day_def Let_def)
qed

lemma seconds_of_day_range:
  "0 \<le> seconds_of_day a b \<and> seconds_of_day a b < 86400"
  by (simp add: seconds_of_day_def)

lemma seconds_of_day_days:
  "seconds_of_day (a + k * 86400000000) b = seconds_of_day a b"
proof -
  have "((a - b) + (k * 86400) * 1000000) div 1000000 = k * 86400 + (a - b) div 1000000"
    by (rule div_mult_self1) simp
  moreover have "a + k * 86400000000 - b = (a - b) + (k * 86400) * 1000000" by simp
  ultimately have "(a + k * 86400000000 - b) div 1000000 = k * 86400 + (a - b) div 1000000"
    by (simp only:)
  then show ?thesis by (simp add: seconds_of_day_def)
qed

lemma seconds_of_day_in_day:
  assumes "0 \<le> a - b" "a - b < 86400000000"
  shows "seconds_of_day a b = (a - b) div 1000000"
proof -
  have "0 \<le> (a - b) div 1000000" using assms(1) by (simp add: pos_imp_zdiv_nonneg_iff)
  moreover have "(a - b) div 1000000 \<le> 86399999999 div 1000000"
    using assms(2) by (intro zdiv_mono1) simp_all
  ultimately show ?thesis by (simp add: seconds_of_day_def)
qed

subsection \<open>The clock model\<close>

lemma sleep_secs_at_Fin:
  assumes "q \<noteq> 0"
      and "0 \<le> now - programStart" "now - programStart < 86400000000"
      and "0 \<le> obs_time - firstObsTime" "obs_time - firstObsTime < 86400000000"
  shows "sleep_secs_at programStart firstObsTime (Fin q) obs_time now =
           Inr (requiredSleepSeconds programStart firstObsTime q obs_time now)"
  using assms(1) seconds_of_day_in_day[OF assms(2,3)] seconds_of_day_in_day[OF assms(4,5)]
  by (simp add: sleep_secs_at_def requiredSleepSeconds_def whole_seconds_between_def
      int_truediv_def seconds_datetime_sub Let_def)

text \<open>
  Claim C9. Both elapsed times of the clock model are the \<open>seconds\<close> field of a
  normalised \<open>timedelta\<close>: the whole seconds of the difference modulo one day. The field
  lies in \<open>[0, 86400)\<close> for every pair of instants, a whole number of days added to
  either instant changes nothing, so 24 hours or more wrap around, and an observation
  earlier than \<open>firstObsTime\<close> still has an elapsed value of zero or more. The required
  sleep depends on the four instants only through these two fields.
\<close>

theorem elapsed_seconds_of_day:
  "seconds (datetime_sub a b) = ((a - b) div 1000000) mod 86400
   \<and> 0 \<le> seconds (datetime_sub a b) \<and> seconds (datetime_sub a b) < 86400
   \<and> seconds (datetime_sub (a + k * 86400000000) b) = seconds (datetime_sub a b)
   \<and> sleep_secs_at programStart firstObsTime speedFactor obs_time now =
       (case int_truediv (((obs_time - firstObsTime) div 1000000) mod 86400) speedFactor of
          Inl e \<Rightarrow> Inl e
        | Inr sim \<Rightarrow> Inr (float_sub_int sim (((now - programStart) div 1000000) mod 86400)))
   \<and> sleep_secs_at programStart firstObsTime speedFactor
         (obs_time + i * 86400000000) (now + j * 86400000000)
       = sleep_secs_at programStart firstObsTime speedFactor obs_time now"
proof -
  have 1: "seconds (datetime_sub a b) = ((a - b) div 1000000) mod 86400"
    by (simp add: seconds_datetime_sub seconds_of_day_def)
  have 2: "0 \<le> seconds (datetime_sub a b) \<and> seconds (datetime_sub a b) < 86400"
    by (simp add: seconds_datetime_sub seconds_of_day_range)
  have 3: "seconds (datetime_sub (a + k * 86400000000) b) = seconds (datetime_sub a b)"
    by (simp only: seconds_datetime_sub seconds_of_day_days)
  have 4: "sleep_secs_at programStart firstObsTime speedFactor obs_time now =
       (case int_truediv (((obs_time - firstObsTime) div 1000000) mod 86400) speedFactor of
          Inl e \<Rightarrow> Inl e
        | Inr sim \<Rightarrow> Inr (float_sub_int sim (((now - programStart) div 1000000) mod 86400)))"
    by (simp add: sleep_secs_at_def seconds_datetime_sub seconds_of_day_def Let_def)
  have 5: "sleep_secs_at programStart firstObsTime speedFactor
         (obs_time + i * 86400000000) (now + j * 86400000000)
       = sleep_secs_at programStart firstObsTime speedFactor obs_time now"
    by (simp only: sleep_secs_at_def seconds_datetime_sub seconds_of_day_days)
  from 1 2 3 4 5 show ?thesis by (intro conjI) simp_all
qed

lemma sleep_wrapped:
  "sleep_secs_at t0 t0 (Fin 1) (t0 + 10000000) (t0 + 86405000000) = Inr (Fin 5)"
  "sleep_secs_at t0 t0 (Fin 1) (t0 + 86410000000) (t0 + 5000000) = Inr (Fin 5)"
  by code_simp+

lemma required_unwrapped:
  "requiredSleepSeconds t0 t0 1 (t0 + 10000000) (t0 + 86405000000) = Fin (- 86395)"
  "requiredSleepSeconds t0 t0 1 (t0 + 86410000000) (t0 + 5000000) = Fin 86405"
  by code_simp+

text \<open>
  Claim C2 does not hold for every reading of the clock and every observation time.
  The program takes both elapsed times from the \<open>seconds\<close> field of the difference,
  which leaves the whole days out. With the program started at \<open>t0\<close>, the first
  observation at \<open>t0\<close> and a speed factor of 1: for a record ten seconds after the first
  one, read a day and five seconds after the start, the program computes
  \<open>10 - 5 = 5\<close> where the whole seconds between the instants give
  \<open>10 - 86405 = -86395\<close>; for a record a day and ten seconds after the first one, read
  five seconds after the start, it computes \<open>10 - 5 = 5\<close> where the whole seconds
  give \<open>86410 - 5 = 86405\<close>.
\<close>

theorem compute_sleep_secs_drops_whole_days:
  "compute_sleep_secs (\<lambda>n. t0 + 86405000000) t0 t0 (Fin 1) (t0 + 10000000) init_world =
     (Inr (Fin 5), init_world\<lparr>ticks := Suc 0\<rparr>)
   \<and> requiredSleepSeconds t0 t0 1 (t0 + 10000000) (t0 + 86405000000) = Fin (- 86395)
   \<and> compute_sleep_secs (\<lambda>n. t0 + 5000000) t0 t0 (Fin 1) (t0 + 86410000000) init_world =
     (Inr (Fin 5), init_world\<lparr>ticks := Suc 0\<rparr>)
   \<and> requiredSleepSeconds t0 t0 1 (t0 + 86410000000) (t0 + 5000000) = Fin 86405"
  by (simp add: compute_sleep_secs_eq sleep_wrapped required_unwrapped init_world_def)

text \<open>
  Claim C2, amended. When the reading of the clock is less than a day after
  \<open>programStart\<close> and not before it, the observation time is less than a day after
  \<open>firstObsTime\<close> and not before it, and the speed factor is a finite float other than
  zero, \<open>compute_sleep_secs\<close> reads the wall clock once and returns the value the
  specification describes: \<open>simElapsed - wallElapsed\<close>, with \<open>wallElapsed\<close> the whole
  seconds between the reading and \<open>programStart\<close>, \<open>simElapsed\<close> the whole seconds
  between the observation time and \<open>firstObsTime\<close> divided by the speed factor, the
  division and the subtraction in floating point. It raises nothing, and the only thing
  it changes is the count of clock readings: file position and trace of effects stay as
  they were. The witness is a case where the value is negative.
\<close>

theorem compute_sleep_secs_required_sleep:
  assumes "q \<noteq> 0"
      and "0 \<le> clk (ticks w) - programStart" "clk (ticks w) - programStart < 86400000000"
      and "0 \<le> obsTime - firstObsTime" "obsTime - firstObsTime < 86400000000"
  shows "compute_sleep_secs clk programStart firstObsTime (Fin q) obsTime w =
           (Inr (requiredSleepSeconds programStart firstObsTime q obsTime (clk (ticks w))),
            w\<lparr>ticks := Suc (ticks w)\<rparr>)"
  using assms by (simp add: compute_sleep_secs_eq sleep_secs_at_Fin)

lemma requiredSleepSeconds_example:
  "requiredSleepSeconds t0 t0 60 (t0 + 120000000) (t0 + 5000000) = Fin (- 3)"
  "requiredSleepSeconds t0 t0 3 (t0 + 10000000) (t0 + 5000000) =
     Fin (- (3752999689475413 / 2251799813685248))"
  by code_simp+

text \<open>
  The second case of the witness has a division that is not exact: \<open>10 / 3\<close> is the float
  \<open>3.3333333333333335\<close>, and five less is \<open>-1.6666666666666665\<close>.
\<close>

theorem compute_sleep_secs_required_sleep_witness:
  "compute_sleep_secs (\<lambda>n. t0 + 5000000) t0 t0 (Fin 60) (t0 + 120000000) init_world =
     (Inr (Fin (- 3)), init_world\<lparr>ticks := Suc 0\<rparr>)
   \<and> \<not> float_gt_int (Fin (- 3)) 0
   \<and> compute_sleep_secs (\<lambda>n. t0 + 5000000) t0 t0 (Fin 3) (t0 + 10000000) init_world =
     (Inr (Fin (- (3752999689475413 / 2251799813685248))), init_world\<lparr>ticks := Suc 0\<rparr>)"
  using compute_sleep_secs_required_sleep [of 60 "\<lambda>n. t0 + 5000000" init_world t0 "t0 + 120000000" t0]
        compute_sleep_secs_required_sleep [of 3 "\<lambda>n. t0 + 5000000" init_world t0 "t0 + 10000000" t0]
  by (simp add: requiredSleepSeconds_example init_world_def float_gt_int_def)

text \<open>
  Claim C3 fails on the code. \<open>publish\<close> evaluates \<open>events[0]\<close> for the \<open>print\<close> before it
  tests \<open>numobs > 0\<close>, so a call with no events raises IndexError, and so does a run of
  \<open>simulate\<close> on an exhausted file, whose final flush is such a call.
\<close>

theorem publish_empty_raises:
  "publish topic [] w = (Some IndexError, w)
   \<and> simulate L clk topic [] firstObsTime programStart speedFactor w = (Some IndexError, w)"
  by (simp add: publish_def simulate_def)

subsection \<open>The example records under the ASCII library\<close>

lemma ts_rec_a: "get_timestamp ascii_lib rec_a = Inr t0"
  by code_simp

lemma ts_rec_b: "get_timestamp ascii_lib rec_b = Inr t0"
  by code_simp

lemma ts_rec_b1: "get_timestamp ascii_lib rec_b1 = Inr (t0 + 1000000)"
  by code_simp

lemma ts_rec_c: "get_timestamp ascii_lib rec_c = Inr (t0 + 2000000)"
  by code_simp

lemma ts_rec_half: "get_timestamp ascii_lib rec_half = Inl ValueError"
  by code_simp

lemma conv_rec_a: "convert_csv_to_json ascii_lib rec_a = Inr row_a"
  by code_simp

lemma conv_rec_b: "convert_csv_to_json ascii_lib rec_b = Inr row_b"
  by code_simp

lemma conv_rec_b1: "convert_csv_to_json ascii_lib rec_b1 = Inr row_b1"
  by code_simp

lemma conv_rec_c: "convert_csv_to_json ascii_lib rec_c = Inr row_c"
  by code_simp

lemma truediv_by_one:
  "int_truediv 0 (Fin 1) = Inr (Fin 0)" "int_truediv 1 (Fin 1) = Inr (Fin 1)"
  "int_truediv 2 (Fin 1) = Inr (Fin 2)"
  by code_simp+

lemma sub_zero:
  "float_sub_int (Fin 0) 0 = Fin 0" "float_sub_int (Fin 1) 0 = Fin 1"
  "float_sub_int (Fin 2) 0 = Fin 2"
  by code_simp+

lemma sleep_two: "time_sleep (Fin 2) = None"
  by code_simp

lemma row_timestamps:
  "map_of row_a ''timestamp'' = Some (JStr ''2008-11-01 00:00:00'')"
  "map_of row_b ''timestamp'' = Some (JStr ''2008-11-01 00:00:00'')"
  "map_of row_b1 ''timestamp'' = Some (JStr ''2008-11-01 00:00:01'')"
  "map_of row_c ''timestamp'' = Some (JStr ''2008-11-01 00:00:02'')"
  by (simp_all add: row_a_def row_b_def row_b1_def row_c_def)

lemma run_abc:
  "simulate ascii_lib (\<lambda>n. t0) ''t'' [rec_a, rec_b, rec_c] t0 t0 (Fin 1) init_world =
     (None, \<lparr>pos = 3, ticks = 4,
             trace = [Print row_a, LogPublishing 2 (JStr ''2008-11-01 00:00:00''),
                      Publish ''t'' row_a, Publish ''t'' row_b,
                      LogSleeping (Fin 2), Sleep (Fin 2),
                      Print row_c, LogPublishing 1 (JStr ''2008-11-01 00:00:02''),
                      Publish ''t'' row_c]\<rparr>)"
  by (simp add: simulate_def loop_body_def flush_and_sleep_def publish_def
      compute_sleep_secs_eq sleep_secs_at_def seconds_datetime_sub seconds_of_day_def
      ts_rec_a ts_rec_b ts_rec_c conv_rec_a conv_rec_b conv_rec_c truediv_by_one sub_zero
      sleep_two row_timestamps float_gt_int_def init_world_def emit_def Let_def numeral_eq_Suc)

theorem simulate_pass_through_witness:
  "\<exists>rows. map (convert_csv_to_json ascii_lib) (drop (pos init_world) [rec_a, rec_b, rec_c])
             = map Inr rows \<and>
          sent (trace \<lparr>pos = 3, ticks = 4,
             trace = [Print row_a, LogPublishing 2 (JStr ''2008-11-01 00:00:00''),
                      Publish ''t'' row_a, Publish ''t'' row_b,
                      LogSleeping (Fin 2), Sleep (Fin 2),
                      Print row_c, LogPublishing 1 (JStr ''2008-11-01 00:00:02''),
                      Publish ''t'' row_c]\<rparr>) = sent (trace init_world) @ rows"
  by (rule simulate_pass_through [OF run_abc])

subsection \<open>Peeking\<close>

lemma peek_timestamp_eq:
  "peek_timestamp L src w =
     (get_timestamp L (if pos w < length src then src ! pos w else []), w)"
  by (simp add: peek_timestamp_def readline_def Let_def)

lemma int_truediv_zero:
  "speedFactor \<noteq> Fin 0 \<Longrightarrow> speedFactor \<noteq> NaN \<Longrightarrow> int_truediv 0 speedFactor = Inr (Fin 0)"
  by (cases speedFactor) (simp_all add: int_truediv_def fl_round_def)

text \<open>
  Claim C10. \<open>peek_timestamp\<close> gives the file object back at the position it found it
  at, and changes nothing else. When a line is left, the next line the driver reads is
  the line that was peeked, its timestamp is the \<open>firstObsTime\<close> that the peek returned,
  and its simulated elapsed time \<open>(obs_time - firstObsTime).seconds / speedFactor\<close> is
  zero for every speed factor other than zero and NaN.
\<close>

theorem peek_timestamp_keeps_position:
  assumes "peek_timestamp L src w = (Inr firstObsTime, w')"
      and "pos w < length src"
      and "speedFactor \<noteq> Fin 0" and "speedFactor \<noteq> NaN"
  shows "w' = w
         \<and> readline src w' = (src ! pos w, w\<lparr>pos := Suc (pos w)\<rparr>)
         \<and> drop (pos w') src = src ! pos w # drop (Suc (pos w)) src
         \<and> get_timestamp L (src ! pos w) = Inr firstObsTime
         \<and> int_truediv (seconds (datetime_sub firstObsTime firstObsTime)) speedFactor
             = Inr (Fin 0)"
proof -
  from assms(1,2) have w: "w' = w" and ts: "get_timestamp L (src ! pos w) = Inr firstObsTime"
    by (auto simp: peek_timestamp_eq)
  have "seconds (datetime_sub firstObsTime firstObsTime) = 0"
    by (simp add: datetime_sub_def)
  with assms(3,4) have z: "int_truediv (seconds (datetime_sub firstObsTime firstObsTime))
      speedFactor = Inr (Fin 0)"
    by (simp add: int_truediv_zero)
  from assms(2) have d: "drop (pos w) src = src ! pos w # drop (Suc (pos w)) src"
    by (simp add: Cons_nth_drop_Suc)
  from assms(2) have r: "readline src w = (src ! pos w, w\<lparr>pos := Suc (pos w)\<rparr>)"
    by (simp add: readline_def)
  show ?thesis unfolding w using ts z d r by (intro conjI) (rule refl, assumption+)
qed

theorem peek_timestamp_keeps_position_witness:
  "init_world\<lparr>pos := 1\<rparr> = init_world\<lparr>pos := 1\<rparr>
   \<and> readline [header, rec_a, rec_c] (init_world\<lparr>pos := 1\<rparr>) =
       ([header, rec_a, rec_c] ! pos (init_world\<lparr>pos := 1\<rparr>),
        init_world\<lparr>pos := 1, pos := Suc (pos (init_world\<lparr>pos := 1\<rparr>))\<rparr>)
   \<and> drop (pos (init_world\<lparr>pos := 1\<rparr>)) [header, rec_a, rec_c] =
       [header, rec_a, rec_c] ! pos (init_world\<lparr>pos := 1\<rparr>) #
       drop (Suc (pos (init_world\<lparr>pos := 1\<rparr>))) [header, rec_a, rec_c]
   \<and> get_timestamp ascii_lib ([header, rec_a, rec_c] ! pos (init_world\<lparr>pos := 1\<rparr>)) = Inr t0
   \<and> int_truediv (seconds (datetime_sub t0 t0)) (Fin 60) = Inr (Fin 0)"
proof -
  have "peek_timestamp ascii_lib [header, rec_a, rec_c] (init_world\<lparr>pos := 1\<rparr>)
          = (Inr t0, init_world\<lparr>pos := 1\<rparr>)"
    by (simp add: peek_timestamp_eq init_world_def ts_rec_a)
  from peek_timestamp_keeps_position [OF this, of "Fin 60"] show ?thesis
    by (simp add: init_world_def)
qed

subsection \<open>One turn of the loop\<close>

lemma publish_Cons:
  "map_of r ''timestamp'' = Some ts \<Longrightarrow>
   publish topic (r # rest) w =
     (None, w\<lparr>trace := trace w @ [Print r, LogPublishing (Suc (length rest)) ts]
                           @ map (Publish topic) (r # rest)\<rparr>)"
  by (simp add: publish_def Let_def emit_def foldl_emit_Publish)

text \<open>
  Claim C5, amended. For a line whose timestamp parses and whose conversion succeeds,
  with \<open>secs\<close> the required sleep at the first reading of the clock and
  \<open>to_sleep_secs\<close> the one at the next reading. When \<open>secs > 1\<close> does not hold, the
  turn flushes nothing, sleeps nothing and appends the record to the accumulator. When
  \<open>secs > 1\<close> holds and the accumulator holds encoded records, the turn publishes the
  whole accumulator and reads the clock again; if \<open>to_sleep_secs\<close> is not above zero
  it does not sleep and starts a new accumulator with the record; if it is above zero
  and \<open>time.sleep\<close> accepts it, the turn sleeps exactly \<open>to_sleep_secs\<close> and then
  starts a new accumulator with the record; if it is above zero and \<open>time.sleep\<close>
  raises, the run ends there with that exception, after the flush and the log line,
  and the record is not appended. A flush with an empty accumulator is the subject of
  claim C3; in a run of the main program the accumulator holds a record at every flush
  (lemma \<open>main_never_flushes_empty\<close> below).
\<close>

theorem loop_body_flush_decision:
  assumes "get_timestamp L line = Inr obs_time"
      and "sleep_secs_at programStart firstObsTime speedFactor obs_time (clk (ticks w)) = Inr secs"
      and "sleep_secs_at programStart firstObsTime speedFactor obs_time (clk (Suc (ticks w)))
             = Inr to_sleep_secs"
      and "convert_csv_to_json L line = Inr event_data_json"
  shows "(\<not> float_gt_int secs 1 \<longrightarrow>
            loop_body L clk topic firstObsTime programStart speedFactor line topublish w =
              (None, topublish @ [event_data_json], w\<lparr>ticks := Suc (ticks w)\<rparr>))
       \<and> (float_gt_int secs 1 \<and> topublish = r # rest \<and> map_of r ''timestamp'' = Some ts \<longrightarrow>
            loop_body L clk topic firstObsTime programStart speedFactor line topublish w =
              (let flushed = trace w @ [Print r, LogPublishing (length topublish) ts]
                               @ map (Publish topic) topublish
               in if \<not> float_gt_int to_sleep_secs 0
                  then (None, [event_data_json],
                        w\<lparr>ticks := Suc (Suc (ticks w)), trace := flushed\<rparr>)
                  else (case time_sleep to_sleep_secs of
                          None \<Rightarrow>
                            (None, [event_data_json],
                             w\<lparr>ticks := Suc (Suc (ticks w)),
                               trace := flushed @ [LogSleeping to_sleep_secs,
                                                   Sleep to_sleep_secs]\<rparr>)
                        | Some e \<Rightarrow>
                            (Some e, [],
                             w\<lparr>ticks := Suc (Suc (ticks w)),
                               trace := flushed @ [LogSleeping to_sleep_secs]\<rparr>))))"
  using assms
  by (simp add: loop_body_def flush_and_sleep_def compute_sleep_secs_eq publish_Cons emit_def
      Let_def split: option.splits)

lemma sleep_at_t0:
  "sleep_secs_at t0 t0 (Fin 1) t0 t0 = Inr (Fin 0)"
  "sleep_secs_at t0 t0 (Fin 1) (t0 + 2000000) t0 = Inr (Fin 2)"
  by (simp_all add: sleep_secs_at_def seconds_datetime_sub seconds_of_day_def
      truediv_by_one sub_zero)

lemma tiny_speed_factor:
  "int_truediv 0 (Fin (1 / 1099511627776)) = Inr (Fin 0)"
  "int_truediv 2 (Fin (1 / 1099511627776)) = Inr (Fin 2199023255552)"
  "float_sub_int (Fin 2199023255552) 0 = Fin 2199023255552"
  "time_sleep (Fin 2199023255552) = Some OverflowError"
  by code_simp+

lemma sleep_at_t0_tiny:
  "sleep_secs_at t0 t0 (Fin (1 / 1099511627776)) (t0 + 2000000) t0 = Inr (Fin 2199023255552)"
  by (simp add: sleep_secs_at_def seconds_datetime_sub seconds_of_day_def tiny_speed_factor)

theorem loop_body_flush_decision_witness:
  "loop_body ascii_lib (\<lambda>n. t0) ''t'' t0 t0 (Fin 1) rec_b [row_a] init_world =
     (None, [row_a, row_b], init_world\<lparr>ticks := Suc (ticks init_world)\<rparr>)
   \<and> loop_body ascii_lib (\<lambda>n. t0) ''t'' t0 t0 (Fin 1) rec_c [row_a, row_b] init_world =
     (None, [row_c],
      init_world\<lparr>ticks := Suc (Suc (ticks init_world)),
        trace := trace init_world
                 @ [Print row_a, LogPublishing 2 (JStr ''2008-11-01 00:00:00''),
                    Publish ''t'' row_a, Publish ''t'' row_b,
                    LogSleeping (Fin 2), Sleep (Fin 2)]\<rparr>)
   \<and> loop_body ascii_lib (\<lambda>n. t0) ''t'' t0 t0 (Fin (1 / 1099511627776)) rec_c [row_a]
         init_world =
     (Some OverflowError, [],
      init_world\<lparr>ticks := Suc (Suc (ticks init_world)),
        trace := trace init_world
                 @ [Print row_a, LogPublishing 1 (JStr ''2008-11-01 00:00:00''),
                    Publish ''t'' row_a, LogSleeping (Fin 2199023255552)]\<rparr>)"
proof -
  have no: "\<not> float_gt_int (Fin 0) 1" and yes: "float_gt_int (Fin 2) 1"
    and pos: "float_gt_int (Fin 2) 0"
    and big: "float_gt_int (Fin 2199023255552) 1" "float_gt_int (Fin 2199023255552) 0"
    by (simp_all add: float_gt_int_def)
  from loop_body_flush_decision [where clk = "\<lambda>n. t0" and w = init_world and topic = "''t''"
      and topublish = "[row_a]" and r = row_a and rest = "[]"
      and ts = "JStr ''2008-11-01 00:00:00''",
      OF ts_rec_b sleep_at_t0(1) sleep_at_t0(1) conv_rec_b] no
  have 1: "loop_body ascii_lib (\<lambda>n. t0) ''t'' t0 t0 (Fin 1) rec_b [row_a] init_world =
     (None, [row_a, row_b], init_world\<lparr>ticks := Suc (ticks init_world)\<rparr>)"
    by simp
  from loop_body_flush_decision [where clk = "\<lambda>n. t0" and w = init_world and topic = "''t''"
      and topublish = "[row_a, row_b]" and r = row_a and rest = "[row_b]"
      and ts = "JStr ''2008-11-01 00:00:00''",
      OF ts_rec_c sleep_at_t0(2) sleep_at_t0(2) conv_rec_c] yes pos
  have 2: "loop_body ascii_lib (\<lambda>n. t0) ''t'' t0 t0 (Fin 1) rec_c [row_a, row_b] init_world =
     (None, [row_c],
      init_world\<lparr>ticks := Suc (Suc (ticks init_world)),
        trace := trace init_world
                 @ [Print row_a, LogPublishing 2 (JStr ''2008-11-01 00:00:00''),
                    Publish ''t'' row_a, Publish ''t'' row_b,
                    LogSleeping (Fin 2), Sleep (Fin 2)]\<rparr>)"
    by (simp add: row_timestamps sleep_two)
  from loop_body_flush_decision [where clk = "\<lambda>n. t0" and w = init_world and topic = "''t''"
      and topublish = "[row_a]" and r = row_a and rest = "[]"
      and ts = "JStr ''2008-11-01 00:00:00''",
      OF ts_rec_c sleep_at_t0_tiny sleep_at_t0_tiny conv_rec_c] big
  have 3: "loop_body ascii_lib (\<lambda>n. t0) ''t'' t0 t0 (Fin (1 / 1099511627776)) rec_c [row_a]
         init_world =
     (Some OverflowError, [],
      init_world\<lparr>ticks := Suc (Suc (ticks init_world)),
        trace := trace init_world
                 @ [Print row_a, LogPublishing 1 (JStr ''2008-11-01 00:00:00''),
                    Publish ''t'' row_a, LogSleeping (Fin 2199023255552)]\<rparr>)"
    by (simp add: row_timestamps tiny_speed_factor)
  from 1 2 3 show ?thesis by (intro conjI)
qed

subsection \<open>Aborting on a malformed timestamp\<close>

lemma publish_pos: "pos (snd (publish topic evs w)) = pos w"
  by (auto simp: publish_def Let_def emit_def foldl_emit_Publish split: list.splits option.splits)

lemma flush_and_sleep_pos:
  "pos (snd (snd (flush_and_sleep clk topic first start sf obs tp w))) = pos w"
proof -
  obtain r w1 where p: "publish topic tp w = (r, w1)" by (cases "publish topic tp w")
  then have "pos w1 = pos w" using publish_pos[of topic tp w] by simp
  with p show ?thesis
    by (auto simp: flush_and_sleep_def compute_sleep_secs_eq emit_def Let_def
        split: option.splits sum.splits)
qed

lemma loop_body_pos:
  "pos (snd (snd (loop_body L clk topic first start sf line tp w))) = pos w"
proof (cases "get_timestamp L line")
  case (Inl e)
  then show ?thesis by (simp add: loop_body_def)
next
  case (Inr obs)
  let ?w1 = "w\<lparr>ticks := Suc (ticks w)\<rparr>"
  obtain r tp' w2 where f: "flush_and_sleep clk topic first start sf obs tp ?w1 = (r, tp', w2)"
    by (cases "flush_and_sleep clk topic first start sf obs tp ?w1") auto
  then have "pos w2 = pos w" using flush_and_sleep_pos[of clk topic first start sf obs tp ?w1]
    by simp
  with Inr f show ?thesis
    by (auto simp: loop_body_def compute_sleep_secs_eq split: sum.splits option.splits)
qed

lemma simulate_loop_pos_le:
  "pos (snd (snd (simulate_loop L clk topic first start sf lines tp w))) \<le> pos w + length lines"
proof (induction lines arbitrary: tp w)
  case Nil
  then show ?case by simp
next
  case (Cons line rest)
  let ?w0 = "w\<lparr>pos := Suc (pos w)\<rparr>"
  obtain r tp1 w1 where b: "loop_body L clk topic first start sf line tp ?w0 = (r, tp1, w1)"
    by (cases "loop_body L clk topic first start sf line tp ?w0") auto
  then have p: "pos w1 = Suc (pos w)" using loop_body_pos[of L clk topic first start sf line tp ?w0]
    by simp
  show ?case
  proof (cases r)
    case None
    with b p Cons.IH[of tp1 w1] show ?thesis by simp
  next
    case (Some e)
    with b p show ?thesis by simp
  qed
qed

lemma simulate_loop_append:
  "simulate_loop L clk topic first start sf (pre @ post) tp w =
     (case simulate_loop L clk topic first start sf pre tp w of
        (Some e, tp', w') \<Rightarrow> (Some e, tp', w')
      | (None, tp', w') \<Rightarrow> simulate_loop L clk topic first start sf post tp' w')"
  by (induction pre arbitrary: tp w) (auto split: prod.splits option.splits)

lemma simulate_loop_bad:
  "get_timestamp L bad = Inl e \<Longrightarrow>
   simulate_loop L clk topic first start sf (bad # post) tp w = (Some e, tp, w\<lparr>pos := Suc (pos w)\<rparr>)"
  by (simp add: loop_body_def)

lemma simulate_loop_through_bad:
  assumes "get_timestamp L bad = Inl e"
  shows "simulate_loop L clk topic first start sf (pre @ bad # post) tp w =
           (case simulate_loop L clk topic first start sf pre tp w of
              (Some e', tp', w') \<Rightarrow> (Some e', tp', w')
            | (None, tp', w') \<Rightarrow> (Some e, tp', w'\<lparr>pos := Suc (pos w')\<rparr>))"
  using assms by (simp add: simulate_loop_append loop_body_def split: prod.splits option.splits)

text \<open>
  Claim C8. Let the timestamp of the record \<open>bad\<close> be unparsable, \<open>pre\<close> the records
  before it and \<open>post\<close> the records after it. The loop ends with an exception; what it
  returns does not depend on \<open>post\<close>, and the file position shows that no record after
  \<open>bad\<close> was read. When the records of \<open>pre\<close> go through, the exception is the one
  \<open>get_timestamp\<close> raised for \<open>bad\<close>, raised right after \<open>bad\<close> was read: accumulator and
  effects are as \<open>pre\<close> left them. A run of \<open>simulate\<close> on such a file ends with an
  exception.
\<close>

theorem malformed_timestamp_aborts:
  assumes "get_timestamp L bad = Inl e"
  shows "simulate_loop L clk topic firstObsTime programStart speedFactor (pre @ bad # post) tp w
           = simulate_loop L clk topic firstObsTime programStart speedFactor (pre @ [bad]) tp w
       \<and> fst (simulate_loop L clk topic firstObsTime programStart speedFactor
                (pre @ bad # post) tp w) \<noteq> None
       \<and> pos (snd (snd (simulate_loop L clk topic firstObsTime programStart speedFactor
                (pre @ bad # post) tp w))) \<le> pos w + length pre + 1
       \<and> (simulate_loop L clk topic firstObsTime programStart speedFactor pre tp w
             = (None, tp1, w1) \<longrightarrow>
           simulate_loop L clk topic firstObsTime programStart speedFactor (pre @ bad # post) tp w
             = (Some e, tp1, w1\<lparr>pos := Suc (pos w1)\<rparr>))
       \<and> (drop (pos w) src = pre @ bad # post \<longrightarrow>
           fst (simulate L clk topic src firstObsTime programStart speedFactor w) \<noteq> None)"
proof -
  let ?loop = "simulate_loop L clk topic firstObsTime programStart speedFactor"
  note full = simulate_loop_through_bad [OF assms]
  obtain r tp' w' where pre: "?loop pre tp w = (r, tp', w')"
    by (cases "?loop pre tp w") auto
  have 1: "?loop (pre @ bad # post) tp w = ?loop (pre @ [bad]) tp w"
    by (simp only: full)
  have 2: "fst (?loop (pre @ bad # post) tp w) \<noteq> None"
    by (simp add: full split: prod.splits option.splits)
  have "pos w' \<le> pos w + length pre"
    using simulate_loop_pos_le[of L clk topic firstObsTime programStart speedFactor pre tp w] pre
    by simp
  then have 3: "pos (snd (snd (?loop (pre @ bad # post) tp w))) \<le> pos w + length pre + 1"
    using pre by (simp add: full split: option.splits)
  have 4: "?loop pre tp w = (None, tp1, w1) \<longrightarrow>
           ?loop (pre @ bad # post) tp w = (Some e, tp1, w1\<lparr>pos := Suc (pos w1)\<rparr>)"
    by (simp add: full)
  have 5: "drop (pos w) src = pre @ bad # post \<longrightarrow>
           fst (simulate L clk topic src firstObsTime programStart speedFactor w) \<noteq> None"
    by (simp add: simulate_def full split: prod.splits option.splits)
  from 1 2 3 4 5 show ?thesis by (intro conjI)
qed

lemma run_a_half_c:
  "simulate_loop ascii_lib (\<lambda>n. t0) ''t'' t0 t0 (Fin 1) [rec_a, rec_half, rec_c] [] init_world =
     (Some ValueError, [row_a], \<lparr>pos = 2, ticks = 1, trace = []\<rparr>)"
  by (simp add: loop_body_def compute_sleep_secs_eq sleep_at_t0 ts_rec_a ts_rec_half conv_rec_a
      float_gt_int_def init_world_def)

theorem malformed_timestamp_aborts_witness:
  "simulate_loop ascii_lib (\<lambda>n. t0) ''t'' t0 t0 (Fin 1) ([rec_a] @ rec_half # [rec_c]) [] init_world
     = simulate_loop ascii_lib (\<lambda>n. t0) ''t'' t0 t0 (Fin 1) ([rec_a] @ [rec_half]) [] init_world
   \<and> fst (simulate_loop ascii_lib (\<lambda>n. t0) ''t'' t0 t0 (Fin 1) ([rec_a] @ rec_half # [rec_c]) []
          init_world) \<noteq> None
   \<and> pos (snd (snd (simulate_loop ascii_lib (\<lambda>n. t0) ''t'' t0 t0 (Fin 1)
          ([rec_a] @ rec_half # [rec_c]) [] init_world))) \<le> pos init_world + length [rec_a] + 1
   \<and> simulate_loop ascii_lib (\<lambda>n. t0) ''t'' t0 t0 (Fin 1) ([rec_a] @ rec_half # [rec_c]) [] init_world
       = (Some ValueError, [row_a],
          \<lparr>pos = 1, ticks = 1, trace = []\<rparr>\<lparr>pos := Suc (pos \<lparr>pos = 1, ticks = 1, trace = []\<rparr>)\<rparr>)
   \<and> fst (simulate ascii_lib (\<lambda>n. t0) ''t'' [rec_a, rec_half, rec_c] t0 t0 (Fin 1) init_world)
       \<noteq> None"
proof -
  have pre: "simulate_loop ascii_lib (\<lambda>n. t0) ''t'' t0 t0 (Fin 1) [rec_a] [] init_world =
      (None, [row_a], \<lparr>pos = 1, ticks = 1, trace = []\<rparr>)"
    by (simp add: loop_body_def compute_sleep_secs_eq sleep_at_t0 ts_rec_a conv_rec_a
        float_gt_int_def init_world_def)
  have d: "drop (pos init_world) [rec_a, rec_half, rec_c] = [rec_a] @ rec_half # [rec_c]"
    by (simp add: init_world_def)
  from malformed_timestamp_aborts [OF ts_rec_half, where pre = "[rec_a]" and post = "[rec_c]"
      and tp = "[]" and w = init_world and clk = "\<lambda>n. t0" and topic = "''t''"
      and firstObsTime = t0 and programStart = t0 and speedFactor = "Fin 1"
      and ?tp1.0 = "[row_a]" and ?w1.0 = "\<lparr>pos = 1, ticks = 1, trace = []\<rparr>"
      and src = "[rec_a, rec_half, rec_c]"] pre d
  show ?thesis by blast
qed

subsection \<open>The three-record scenario\<close>

lemma seconds_after:
  "seconds (datetime_sub T T) = 0"
  "seconds (datetime_sub (T + 1000000) T) = 1"
  "seconds (datetime_sub (T + 2000000) T) = 2"
  by (simp_all add: datetime_sub_def)

text \<open>
  Claim C6 fails on the code as it is stated: a record timestamped \<open>T+0.5s\<close> does not
  match \<open>TIME_FORMAT = '%Y-%m-%d %H:%M:%S'\<close>, so \<open>get_timestamp\<close> raises ValueError at the
  second record and the run ends with no flush at all.
\<close>

theorem half_second_record_aborts:
  "simulate ascii_lib (\<lambda>n. t0) ''t'' [rec_a, rec_half, rec_c] t0 t0 (Fin 1) init_world =
     (Some ValueError, \<lparr>pos = 2, ticks = 1, trace = []\<rparr>)"
proof -
  have d: "drop (pos init_world) [rec_a, rec_half, rec_c] = [rec_a, rec_half, rec_c]"
    by (simp add: init_world_def)
  show ?thesis unfolding simulate_def d run_a_half_c by simp
qed

text \<open>
  Claim C6, amended. The timestamps of the format have whole seconds. For three records
  timestamped \<open>T\<close>, \<open>T\<close> or \<open>T+1s\<close>, and \<open>T+2s\<close>, with speed factor 1 and no whole second
  of wall time elapsed at any of the four readings of the clock, the run makes exactly
  two flushes: the first while it evaluates the third record and before it appends it,
  holding the first two records and followed by a sleep of two seconds; the final one
  holding the third record alone.
\<close>

theorem three_records_two_flushes:
  assumes "drop (pos w) src = [l0, l1, l2]"
      and "get_timestamp L l0 = Inr T"
      and "get_timestamp L l1 = Inr (T + g * 1000000)" and "g = 0 \<or> g = 1"
      and "get_timestamp L l2 = Inr (T + 2000000)"
      and "convert_csv_to_json L l0 = Inr r0"
      and "convert_csv_to_json L l1 = Inr r1"
      and "convert_csv_to_json L l2 = Inr r2"
      and "map_of r0 ''timestamp'' = Some ts0" and "map_of r2 ''timestamp'' = Some ts2"
      and "seconds (datetime_sub (clk (ticks w)) programStart) = 0"
      and "seconds (datetime_sub (clk (Suc (ticks w))) programStart) = 0"
      and "seconds (datetime_sub (clk (Suc (Suc (ticks w)))) programStart) = 0"
      and "seconds (datetime_sub (clk (Suc (Suc (Suc (ticks w))))) programStart) = 0"
  shows "simulate L clk topic src T programStart (Fin 1) w =
           (None, w\<lparr>pos := pos w + 3, ticks := ticks w + 4,
                    trace := trace w @
                      [Print r0, LogPublishing 2 ts0, Publish topic r0, Publish topic r1,
                       LogSleeping (Fin 2), Sleep (Fin 2),
                       Print r2, LogPublishing 1 ts2, Publish topic r2]\<rparr>)"
proof -
  have run: "simulate L clk topic src T programStart (Fin 1) w =
           (None, w\<lparr>pos := pos w + 3, ticks := ticks w + 4,
                    trace := trace w @
                      [Print r0, LogPublishing 2 ts0, Publish topic r0, Publish topic r1,
                       LogSleeping (Fin 2), Sleep (Fin 2),
                       Print r2, LogPublishing 1 ts2, Publish topic r2]\<rparr>)"
    if l1: "get_timestamp L l1 = Inr T'" and s: "seconds (datetime_sub T' T) = k"
      and k: "int_truediv k (Fin 1) = Inr (Fin (of_int k))"
             "float_sub_int (Fin (of_int k)) 0 = Fin (of_int k)" "k \<le> 1" for T' k
    using assms(1,2,5-14) that
    by (simp add: simulate_def loop_body_def flush_and_sleep_def compute_sleep_secs_eq
        sleep_secs_at_def seconds_after truediv_by_one sub_zero sleep_two publish_Cons
        float_gt_int_def emit_def)
  from assms(4) show ?thesis
  proof
    assume "g = 0"
    with assms(3) have "get_timestamp L l1 = Inr T" by simp
    from run [OF this seconds_after(1)] show ?thesis by (simp add: truediv_by_one sub_zero)
  next
    assume "g = 1"
    with assms(3) have "get_timestamp L l1 = Inr (T + 1000000)" by simp
    from run [OF this seconds_after(2)] show ?thesis by (simp add: truediv_by_one sub_zero)
  qed
qed

theorem three_records_two_flushes_witness:
  "simulate ascii_lib (\<lambda>n. t0) ''t'' [rec_a, rec_b1, rec_c] t0 t0 (Fin 1) init_world =
     (None, init_world\<lparr>pos := pos init_world + 3, ticks := ticks init_world + 4,
              trace := trace init_world @
                [Print row_a, LogPublishing 2 (JStr ''2008-11-01 00:00:00''),
                 Publish ''t'' row_a, Publish ''t'' row_b1,
                 LogSleeping (Fin 2), Sleep (Fin 2),
                 Print row_c, LogPublishing 1 (JStr ''2008-11-01 00:00:02''),
                 Publish ''t'' row_c]\<rparr>)"
proof -
  have d: "drop (pos init_world) [rec_a, rec_b1, rec_c] = [rec_a, rec_b1, rec_c]"
    by (simp add: init_world_def)
  have b1: "get_timestamp ascii_lib rec_b1 = Inr (t0 + 1 * 1000000)"
    by (simp add: ts_rec_b1)
  have g: "(1::int) = 0 \<or> (1::int) = 1" by simp
  show ?thesis
    by (rule three_records_two_flushes [OF d ts_rec_a b1 g ts_rec_c conv_rec_a conv_rec_b1
          conv_rec_c row_timestamps(1) row_timestamps(4)])
       (simp_all add: seconds_after)
qed

subsection \<open>Speed factors for which the threshold is never exceeded\<close>

lemma float_gt_int_mono: "float_gt_int x 1 \<Longrightarrow> float_gt_int x 0"
  by (cases x) (auto simp: float_gt_int_def)

lemma float_sub_int_not_gt:
  assumes "\<not> float_gt_int x n" "0 \<le> e" "0 \<le> n" "n < 2 ^ 53"
  shows "\<not> float_gt_int (float_sub_int x e) n"
proof (cases x)
  case (Fin r)
  with assms(1) have "r \<le> of_int n" by (simp add: float_gt_int_def)
  with assms(2) have "r - of_int e \<le> of_int n" by simp
  from fl_round_le[OF this assms(3,4)] Fin show ?thesis by (simp add: float_sub_int_def)
qed (use assms in \<open>simp_all add: float_sub_int_def float_gt_int_def\<close>)

lemma int_truediv_nonpos:
  assumes "sf = PInf \<or> sf = NInf \<or> sf = NaN \<or> (\<exists>q. sf = Fin q \<and> q < 0)" "0 \<le> s"
      and "int_truediv s sf = Inr sim"
  shows "\<not> float_gt_int sim 0"
proof (cases sf)
  case (Fin q)
  with assms(1) have q: "q < 0" by simp
  with assms(2) have "of_int s / q \<le> of_int 0" by (simp add: divide_nonneg_neg)
  from fl_round_le[OF this] q Fin assms(3) show ?thesis by (auto simp: int_truediv_def)
qed (use assms(3) in \<open>auto simp: int_truediv_def float_gt_int_def\<close>)

lemma int_truediv_le_one:
  assumes "86399 \<le> q" "0 \<le> s" "s \<le> 86399" and "int_truediv s (Fin q) = Inr sim"
  shows "\<not> float_gt_int sim 1"
proof -
  have "rat_of_int s \<le> 86399" using assms(3) by (metis of_int_le_iff of_int_numeral)
  with assms(1) have "of_int s / q \<le> of_int 1" by (simp add: divide_le_eq)
  from fl_round_le[OF this] assms(1,4) show ?thesis by (auto simp: int_truediv_def)
qed

lemma sleep_secs_at_Inr:
  "sleep_secs_at start first sf obs now = Inr x \<Longrightarrow>
   \<exists>sim. int_truediv (seconds (datetime_sub obs first)) sf = Inr sim \<and>
         x = float_sub_int sim (seconds (datetime_sub now start))"
  by (auto simp: sleep_secs_at_def Let_def split: sum.splits)

lemma sleep_never_positive:
  assumes "sf = PInf \<or> sf = NInf \<or> sf = NaN \<or> (\<exists>q. sf = Fin q \<and> q < 0)"
      and "sleep_secs_at start first sf obs now = Inr x"
  shows "\<not> float_gt_int x 0"
proof -
  from sleep_secs_at_Inr[OF assms(2)] obtain sim where
    sim: "int_truediv (seconds (datetime_sub obs first)) sf = Inr sim"
    and x: "x = float_sub_int sim (seconds (datetime_sub now start))" by auto
  have "\<not> float_gt_int sim 0"
    using int_truediv_nonpos[OF assms(1) _ sim] by (simp add: seconds_datetime_sub seconds_of_day_range)
  then show ?thesis unfolding x
    by (rule float_sub_int_not_gt) (simp_all add: seconds_datetime_sub seconds_of_day_range)
qed

lemma sleep_never_above_one:
  assumes "86399 \<le> q" and "sleep_secs_at start first (Fin q) obs now = Inr x"
  shows "\<not> float_gt_int x 1"
proof -
  from sleep_secs_at_Inr[OF assms(2)] obtain sim where
    sim: "int_truediv (seconds (datetime_sub obs first)) (Fin q) = Inr sim"
    and x: "x = float_sub_int sim (seconds (datetime_sub now start))" by auto
  have r: "0 \<le> seconds (datetime_sub obs first)" "seconds (datetime_sub obs first) \<le> 86399"
    using seconds_of_day_range[of obs first] by (simp_all add: seconds_datetime_sub)
  have "\<not> float_gt_int sim 1" by (rule int_truediv_le_one[OF assms(1) r sim])
  then show ?thesis unfolding x
    by (rule float_sub_int_not_gt) (simp_all add: seconds_datetime_sub seconds_of_day_range)
qed

lemma loop_body_quiet:
  assumes "quiet start first sf"
  shows "trace (snd (snd (loop_body L clk topic first start sf line tp w))) = trace w"
  using assms
  by (auto simp: quiet_def loop_body_def compute_sleep_secs_eq split: sum.splits)

lemma simulate_loop_quiet:
  assumes "quiet start first sf"
  shows "trace (snd (snd (simulate_loop L clk topic first start sf lines tp w))) = trace w"
proof (induction lines arbitrary: tp w)
  case Nil
  then show ?case by simp
next
  case (Cons line rest)
  let ?w0 = "w\<lparr>pos := Suc (pos w)\<rparr>"
  obtain r tp1 w1 where b: "loop_body L clk topic first start sf line tp ?w0 = (r, tp1, w1)"
    by (cases "loop_body L clk topic first start sf line tp ?w0") auto
  then have t: "trace w1 = trace w"
    using loop_body_quiet[OF assms, of L clk topic line tp ?w0] by simp
  show ?case
  proof (cases r)
    case None
    with b t Cons.IH[of tp1 w1] show ?thesis by simp
  next
    case (Some e)
    with b t show ?thesis by simp
  qed
qed

lemma publish_slept: "slept (trace (snd (publish topic evs w))) = slept (trace w)"
  by (auto simp: publish_def Let_def emit_def foldl_emit_Publish slept_append slept_map_Publish
      split: list.splits option.splits)

lemma simulate_quiet_no_sleep:
  assumes "quiet start first sf"
  shows "slept (trace (snd (simulate L clk topic src first start sf w))) = slept (trace w)"
proof -
  obtain r tp w1 where l: "simulate_loop L clk topic first start sf (drop (pos w) src) [] w = (r, tp, w1)"
    by (cases "simulate_loop L clk topic first start sf (drop (pos w) src) [] w") auto
  then have t: "trace w1 = trace w"
    using simulate_loop_quiet[OF assms, of L clk topic "drop (pos w) src" "[]" w] by simp
  show ?thesis
    using l t publish_slept[of topic tp w1] by (cases r) (simp_all add: simulate_def)
qed

lemma simulate_quiet_single_flush:
  assumes "quiet start first sf"
      and "simulate L clk topic src first start sf w = (None, w')"
  shows "\<exists>rows r rest ts. map (convert_csv_to_json L) (drop (pos w) src) = map Inr rows \<and>
           rows = r # rest \<and>
           trace w' = trace w @ [Print r, LogPublishing (length rows) ts] @ map (Publish topic) rows"
proof -
  from assms(2) obtain tp w1 where
    loop: "simulate_loop L clk topic first start sf (drop (pos w) src) [] w = (None, tp, w1)"
    and fin: "publish topic tp w1 = (None, w')"
    by (auto simp: simulate_def split: prod.splits option.splits)
  have t: "trace w1 = trace w"
    using simulate_loop_quiet[OF assms(1), of L clk topic "drop (pos w) src" "[]" w] loop by simp
  from simulate_loop_ok[OF loop] t obtain rows where
    rows: "map (convert_csv_to_json L) (drop (pos w) src) = map Inr rows" "tp = rows"
    by auto
  from publish_ok[OF fin] t rows show ?thesis by auto
qed

lemma quiet_negative: "q < 0 \<Longrightarrow> quiet start first (Fin q)"
  unfolding quiet_def using sleep_never_positive float_gt_int_mono by blast

lemma quiet_large: "86399 \<le> q \<Longrightarrow> quiet start first (Fin q)"
  unfolding quiet_def using sleep_never_above_one by blast

lemma quiet_PInf: "quiet start first PInf"
  unfolding quiet_def using sleep_never_positive float_gt_int_mono by blast

subsection \<open>Finite speed factors, however large\<close>

lemma fl_round_lower:
  assumes "pow2 (- 1074) \<le> q"
  shows "fl_round q = PInf \<or> (\<exists>r. fl_round q = Fin r \<and> pow2 (- 1074) \<le> r)"
proof -
  have q: "0 < q" using assms pow2_pos[of "- 1074"] by linarith
  let ?e = "max (ilog2 \<bar>q\<bar> - 52) (- 1074)"
  let ?m = "round_half_even (\<bar>q\<bar> / pow2 ?e)"
  have e: "- 1074 \<le> ?e" by simp
  have "pow2 ?e \<le> q"
  proof (cases "ilog2 q - 52 \<le> - 1074")
    case True
    then have "?e = - 1074" using q by simp
    with assms show ?thesis by simp
  next
    case False
    then have "?e = ilog2 q - 52" using q by simp
    then have "pow2 ?e \<le> pow2 (ilog2 q)" by (simp add: pow2_mono)
    also have "\<dots> \<le> q" by (rule ilog2_lower[OF q])
    finally show ?thesis .
  qed
  then have "1 \<le> \<bar>q\<bar> / pow2 ?e" using q pow2_pos[of ?e] by (simp add: le_divide_eq)
  then have "1 \<le> \<lfloor>\<bar>q\<bar> / pow2 ?e\<rfloor>" by (simp add: le_floor_iff)
  then have "1 \<le> ?m" using floor_le_round_half_even[of "\<bar>q\<bar> / pow2 ?e"] by linarith
  then have "(1::rat) \<le> of_int ?m" by (metis of_int_1 of_int_le_iff)
  then have "1 * pow2 ?e \<le> of_int ?m * pow2 ?e"
    using pow2_pos[of ?e] by (intro mult_right_mono) simp_all
  moreover have "pow2 (- 1074) \<le> pow2 ?e" using e by (rule pow2_mono)
  ultimately have "pow2 (- 1074) \<le> of_int ?m * pow2 ?e" by simp
  then show ?thesis using q by (simp add: fl_round_def Let_def del: max_less_iff_conj)
qed

lemma float_gt_int_lower: "pow2 (- 1074) \<le> r \<Longrightarrow> float_gt_int (Fin r) 0"
  using pow2_pos[of "- 1074"] by (simp add: float_gt_int_def)

lemma sleep_positive_finite:
  assumes "0 < q" "q \<le> 2 ^ 1024"
      and "seconds (datetime_sub obs first) = 1" "seconds (datetime_sub now start) = 0"
  shows "case sleep_secs_at start first (Fin q) obs now of
           Inl e \<Rightarrow> False | Inr x \<Rightarrow> float_gt_int x 0"
proof -
  have "pow2 (- 1024) \<le> 1 / q"
    using assms(1,2) by (simp add: pow2_def le_divide_eq divide_le_eq mult.commute)
  moreover have "pow2 (- 1074) \<le> pow2 (- 1024)" by (rule pow2_mono) simp
  ultimately have "pow2 (- 1074) \<le> 1 / q" by simp
  from fl_round_lower[OF this] have "float_gt_int (float_sub_int (fl_round (1 / q)) 0) 0"
  proof
    assume "fl_round (1 / q) = PInf"
    then show ?thesis by (simp add: float_sub_int_def float_gt_int_def)
  next
    assume "\<exists>r. fl_round (1 / q) = Fin r \<and> pow2 (- 1074) \<le> r"
    then obtain r where r: "fl_round (1 / q) = Fin r" "pow2 (- 1074) \<le> r" by auto
    from fl_round_lower[OF r(2)] have "float_gt_int (fl_round r) 0"
      by (auto simp: float_gt_int_def intro: float_gt_int_lower[unfolded float_gt_int_def, simplified])
    with r show ?thesis by (simp add: float_sub_int_def)
  qed
  with assms(1,3,4) show ?thesis by (simp add: sleep_secs_at_def int_truediv_def)
qed

text \<open>
  Claim C7 fails on the code for every finite speed factor: even with the largest
  finite float, \<open>2^1024 - 2^971\<close>, a record one second after the first has a required
  sleep above zero when no wall time has elapsed.
\<close>

theorem largest_speed_factor_positive_sleep:
  "case sleep_secs_at t0 t0 (Fin (2 ^ 1024 - 2 ^ 971)) (t0 + 1000000) t0 of
     Inl e \<Rightarrow> False | Inr x \<Rightarrow> float_gt_int x 0"
  by (rule sleep_positive_finite) (simp_all add: seconds_after)

text \<open>
  Claim C7, amended. With an infinite speed factor the required sleep is never above
  zero. With a finite speed factor of 86399 or more it is never above one second, the
  flush threshold (it can be above zero). In both cases the loop makes no flush and no
  sleep, and the whole run sleeps nothing, whatever the timestamps of the records and
  the readings of the wall clock.
\<close>

theorem large_speed_factor_never_sleeps:
  "(\<exists>x. sleep_secs_at programStart firstObsTime PInf obs_time now = Inr x \<and> \<not> float_gt_int x 0)
   \<and> (86399 \<le> q \<longrightarrow>
        (\<exists>x. sleep_secs_at programStart firstObsTime (Fin q) obs_time now = Inr x
              \<and> \<not> float_gt_int x 1))
   \<and> (speedFactor = PInf \<or> (speedFactor = Fin q \<and> 86399 \<le> q) \<longrightarrow>
        trace (snd (snd (simulate_loop L clk topic firstObsTime programStart speedFactor
                           lines tp w))) = trace w
        \<and> slept (trace (snd (simulate L clk topic src firstObsTime programStart speedFactor w)))
            = slept (trace w))"
proof (intro conjI impI)
  have "sleep_secs_at programStart firstObsTime PInf obs_time now =
          Inr (float_sub_int (Fin 0) (seconds (datetime_sub now programStart)))"
    by (simp add: sleep_secs_at_def int_truediv_def)
  then show "\<exists>x. sleep_secs_at programStart firstObsTime PInf obs_time now = Inr x
               \<and> \<not> float_gt_int x 0"
    using sleep_never_positive[of PInf programStart firstObsTime obs_time now] by simp
next
  assume q: "86399 \<le> q"
  then have "\<exists>x. sleep_secs_at programStart firstObsTime (Fin q) obs_time now = Inr x"
    by (simp add: sleep_secs_at_def int_truediv_def)
  with sleep_never_above_one[OF q]
  show "\<exists>x. sleep_secs_at programStart firstObsTime (Fin q) obs_time now = Inr x
            \<and> \<not> float_gt_int x 1"
    by blast
next
  assume "speedFactor = PInf \<or> (speedFactor = Fin q \<and> 86399 \<le> q)"
  then have quiet: "quiet programStart firstObsTime speedFactor"
    using quiet_PInf quiet_large by blast
  show "trace (snd (snd (simulate_loop L clk topic firstObsTime programStart speedFactor
                           lines tp w))) = trace w"
    by (rule simulate_loop_quiet[OF quiet])
  show "slept (trace (snd (simulate L clk topic src firstObsTime programStart speedFactor w)))
            = slept (trace w)"
    by (rule simulate_quiet_no_sleep[OF quiet])
qed

theorem large_speed_factor_never_sleeps_witness:
  "(\<exists>x. sleep_secs_at t0 t0 PInf (t0 + 2000000) t0 = Inr x \<and> \<not> float_gt_int x 0)
   \<and> (\<exists>x. sleep_secs_at t0 t0 (Fin 86400) (t0 + 2000000) t0 = Inr x \<and> \<not> float_gt_int x 1)
   \<and> trace (snd (snd (simulate_loop ascii_lib (\<lambda>n. t0) ''t'' t0 t0 (Fin 86400)
                        [rec_a, rec_c] [] init_world))) = trace init_world
   \<and> slept (trace (snd (simulate ascii_lib (\<lambda>n. t0) ''t'' [rec_a, rec_c] t0 t0 (Fin 86400)
                          init_world))) = slept (trace init_world)"
proof -
  have q: "(86399::rat) \<le> 86400" by simp
  from large_speed_factor_never_sleeps [where q = 86400 and speedFactor = "Fin 86400"
      and programStart = t0 and firstObsTime = t0 and obs_time = "t0 + 2000000" and now = t0
      and L = ascii_lib and clk = "\<lambda>n. t0" and topic = "''t''" and lines = "[rec_a, rec_c]"
      and tp = "[]" and w = init_world and src = "[rec_a, rec_c]"] q
  show ?thesis by blast
qed

subsection \<open>Speed factors of zero and below\<close>

lemma main_eq:
  assumes "1 < length src"
  shows "main L clk topic_exists speedFactor project src =
          (let w = \<lparr>pos = 1, ticks = 1,
                    trace = GetTopic (topic_path project TOPIC) #
                            (if topic_exists then [LogReusing TOPIC]
                             else [CreateTopic (topic_path project TOPIC), LogCreating TOPIC])\<rparr>
           in case get_timestamp L (src ! 1) of
                Inl e \<Rightarrow> (Some e, w)
              | Inr firstObsTime \<Rightarrow>
                  simulate L clk (topic_path project TOPIC) src firstObsTime (clk 0) speedFactor
                    (w\<lparr>trace := trace w @ [LogSending firstObsTime]\<rparr>))"
proof -
  from assms obtain a b rest where src: "src = a # b # rest"
    by (cases src; cases "tl src") auto
  show ?thesis
    by (cases topic_exists)
       (simp_all add: src main_def Let_def utcnow_def readline_def peek_timestamp_eq
          init_world_def emit_def split: sum.splits)
qed

lemma main_zero:
  assumes "1 < length src" "get_timestamp L (src ! 1) = Inr t"
  shows "main L clk topic_exists (Fin 0) project src =
           (Some ZeroDivisionError,
            \<lparr>pos = 2, ticks = 2,
             trace = GetTopic (topic_path project TOPIC) #
                     (if topic_exists then [LogReusing TOPIC]
                      else [CreateTopic (topic_path project TOPIC), LogCreating TOPIC])
                     @ [LogSending t]\<rparr>)"
proof -
  from assms(1) have d: "drop (Suc 0) src = src ! 1 # drop 2 src"
    by (metis Cons_nth_drop_Suc One_nat_def Suc_1)
  have z: "sleep_secs_at start first (Fin 0) obs now = Inl ZeroDivisionError" for start first obs now
    by (simp add: sleep_secs_at_def int_truediv_def)
  show ?thesis
    unfolding main_eq[OF assms(1)] using assms(2)
    by (simp add: simulate_def d loop_body_def compute_sleep_secs_eq z)
qed

text \<open>
  Claim C4 fails on the code: nothing checks the speed factor. With a speed factor of
  zero the run reads the header and the first record and then raises ZeroDivisionError;
  with a speed factor of \<open>-1\<close> it runs to the end and publishes every record.
\<close>

theorem zero_and_negative_speed_factor_runs:
  "main ascii_lib (\<lambda>n. t0) True (Fin 0) ''p'' [header, rec_a, rec_c] =
     (Some ZeroDivisionError,
      \<lparr>pos = 2, ticks = 2,
       trace = [GetTopic ''projects/p/topics/sandiego'', LogReusing ''sandiego'',
                LogSending t0]\<rparr>)
   \<and> main ascii_lib (\<lambda>n. t0) True (Fin (- 1)) ''p'' [header, rec_a, rec_c] =
     (None,
      \<lparr>pos = 3, ticks = 3,
       trace = [GetTopic ''projects/p/topics/sandiego'', LogReusing ''sandiego'',
                LogSending t0,
                Print row_a, LogPublishing 2 (JStr ''2008-11-01 00:00:00''),
                Publish ''projects/p/topics/sandiego'' row_a,
                Publish ''projects/p/topics/sandiego'' row_c]\<rparr>)"
proof -
  have neg: "int_truediv 0 (Fin (- 1)) = Inr (Fin 0)" "int_truediv 2 (Fin (- 1)) = Inr (Fin (- 2))"
    "float_sub_int (Fin (- 2)) 0 = Fin (- 2)"
    by code_simp+
  have 1: "main ascii_lib (\<lambda>n. t0) True (Fin 0) ''p'' [header, rec_a, rec_c] =
     (Some ZeroDivisionError,
      \<lparr>pos = 2, ticks = 2,
       trace = [GetTopic ''projects/p/topics/sandiego'', LogReusing ''sandiego'',
                LogSending t0]\<rparr>)"
    by (simp add: main_zero [where t = t0] ts_rec_a topic_path_def TOPIC_def)
  have 2: "main ascii_lib (\<lambda>n. t0) True (Fin (- 1)) ''p'' [header, rec_a, rec_c] =
     (None,
      \<lparr>pos = 3, ticks = 3,
       trace = [GetTopic ''projects/p/topics/sandiego'', LogReusing ''sandiego'',
                LogSending t0,
                Print row_a, LogPublishing 2 (JStr ''2008-11-01 00:00:00''),
                Publish ''projects/p/topics/sandiego'' row_a,
                Publish ''projects/p/topics/sandiego'' row_c]\<rparr>)"
    by (simp add: main_eq simulate_def loop_body_def compute_sleep_secs_eq sleep_secs_at_def
        seconds_after neg sub_zero ts_rec_a ts_rec_c conv_rec_a conv_rec_c publish_Cons
        row_timestamps float_gt_int_def topic_path_def TOPIC_def)
  from 1 2 show ?thesis by (rule conjI)
qed

text \<open>
  Claim C4, amended. A speed factor of zero or below is not rejected when the run is
  configured. With a speed factor of zero and a file whose first record has a parsable
  timestamp, the run reads the header and that record and then aborts with
  ZeroDivisionError in the first sleep computation, before anything is published. With
  a negative speed factor no required sleep exceeds the threshold: the loop makes no
  flush and no sleep, and a run that completes has published all records in the one
  final flush.
\<close>

theorem nonpositive_speed_factor_not_checked:
  "(1 < length src \<and> get_timestamp L (src ! 1) = Inr t \<longrightarrow>
      fst (main L clk topic_exists (Fin 0) project src) = Some ZeroDivisionError
      \<and> pos (snd (main L clk topic_exists (Fin 0) project src)) = 2
      \<and> sent (trace (snd (main L clk topic_exists (Fin 0) project src))) = [])
   \<and> (q < 0 \<longrightarrow>
        trace (snd (snd (simulate_loop L clk topic firstObsTime programStart (Fin q)
                           lines tp w))) = trace w
        \<and> (simulate L clk topic src' firstObsTime programStart (Fin q) w = (None, w') \<longrightarrow>
            (\<exists>rows r rest ts.
                map (convert_csv_to_json L) (drop (pos w) src') = map Inr rows \<and>
                rows = r # rest \<and>
                trace w' = trace w @ [Print r, LogPublishing (length rows) ts]
                                   @ map (Publish topic) rows)))"
proof (intro conjI impI)
  assume a: "1 < length src \<and> get_timestamp L (src ! 1) = Inr t"
  then have m: "main L clk topic_exists (Fin 0) project src =
           (Some ZeroDivisionError,
            \<lparr>pos = 2, ticks = 2,
             trace = GetTopic (topic_path project TOPIC) #
                     (if topic_exists then [LogReusing TOPIC]
                      else [CreateTopic (topic_path project TOPIC), LogCreating TOPIC])
                     @ [LogSending t]\<rparr>)"
    by (simp add: main_zero)
  show "fst (main L clk topic_exists (Fin 0) project src) = Some ZeroDivisionError"
    by (simp add: m)
  show "pos (snd (main L clk topic_exists (Fin 0) project src)) = 2"
    by (simp add: m)
  show "sent (trace (snd (main L clk topic_exists (Fin 0) project src))) = []"
    by (simp add: m)
next
  assume "q < 0"
  then have quiet: "quiet programStart firstObsTime (Fin q)" by (rule quiet_negative)
  show "trace (snd (snd (simulate_loop L clk topic firstObsTime programStart (Fin q)
                           lines tp w))) = trace w"
    by (rule simulate_loop_quiet[OF quiet])
  assume "simulate L clk topic src' firstObsTime programStart (Fin q) w = (None, w')"
  from simulate_quiet_single_flush[OF quiet this]
  show "\<exists>rows r rest ts.
                map (convert_csv_to_json L) (drop (pos w) src') = map Inr rows \<and>
                rows = r # rest \<and>
                trace w' = trace w @ [Print r, LogPublishing (length rows) ts]
                                   @ map (Publish topic) rows" .
qed

lemma run_negative:
  "simulate ascii_lib (\<lambda>n. t0) ''t'' [rec_a, rec_c] t0 t0 (Fin (- 1)) init_world =
     (None,
      \<lparr>pos = 2, ticks = 2,
       trace = [Print row_a, LogPublishing 2 (JStr ''2008-11-01 00:00:00''),
                Publish ''t'' row_a, Publish ''t'' row_c]\<rparr>)"
proof -
  have neg: "int_truediv 0 (Fin (- 1)) = Inr (Fin 0)" "int_truediv 2 (Fin (- 1)) = Inr (Fin (- 2))"
    "float_sub_int (Fin (- 2)) 0 = Fin (- 2)"
    by code_simp+
  show ?thesis
    by (simp add: simulate_def loop_body_def compute_sleep_secs_eq sleep_secs_at_def
        seconds_after neg sub_zero ts_rec_a ts_rec_c conv_rec_a conv_rec_c publish_Cons
        row_timestamps float_gt_int_def init_world_def)
qed

theorem nonpositive_speed_factor_not_checked_witness:
  "fst (main ascii_lib (\<lambda>n. t0) True (Fin 0) ''p'' [header, rec_a, rec_c]) = Some ZeroDivisionError
   \<and> pos (snd (main ascii_lib (\<lambda>n. t0) True (Fin 0) ''p'' [header, rec_a, rec_c])) = 2
   \<and> sent (trace (snd (main ascii_lib (\<lambda>n. t0) True (Fin 0) ''p'' [header, rec_a, rec_c]))) = []
   \<and> trace (snd (snd (simulate_loop ascii_lib (\<lambda>n. t0) ''t'' t0 t0 (Fin (- 1))
                        [rec_a, rec_c] [] init_world))) = trace init_world
   \<and> (\<exists>rows r rest ts.
         map (convert_csv_to_json ascii_lib) (drop (pos init_world) [rec_a, rec_c]) = map Inr rows \<and>
         rows = r # rest \<and>
         trace \<lparr>pos = 2, ticks = 2,
                trace = [Print row_a, LogPublishing 2 (JStr ''2008-11-01 00:00:00''),
                         Publish ''t'' row_a, Publish ''t'' row_c]\<rparr>
           = trace init_world @ [Print r, LogPublishing (length rows) ts]
                              @ map (Publish ''t'') rows)"
proof -
  have a: "1 < length [header, rec_a, rec_c]
           \<and> get_timestamp ascii_lib ([header, rec_a, rec_c] ! 1) = Inr t0"
    by (simp add: ts_rec_a)
  have q: "(- 1 :: rat) < 0" by simp
  from nonpositive_speed_factor_not_checked [where src = "[header, rec_a, rec_c]"
      and L = ascii_lib and t = t0 and clk = "\<lambda>n. t0" and topic_exists = True
      and project = "''p''" and q = "- 1" and topic = "''t''" and firstObsTime = t0
      and programStart = t0 and lines = "[rec_a, rec_c]" and tp = "[]" and w = init_world
      and src' = "[rec_a, rec_c]"
      and w' = "\<lparr>pos = 2, ticks = 2,
                trace = [Print row_a, LogPublishing 2 (JStr ''2008-11-01 00:00:00''),
                         Publish ''t'' row_a, Publish ''t'' row_c]\<rparr>"] a q run_negative
  show ?thesis by blast
qed

subsection \<open>The accumulator at a flush\<close>

text \<open>
  The first record of a run of the main program has the observation time
  \<open>firstObsTime\<close>, so its required sleep is never above the threshold and its turn does
  not flush; every turn that completes leaves a record in the accumulator. So no flush
  of such a run finds the accumulator empty: as long as the library itself raises no
  \<open>IndexError\<close>, the run does not end in one.
\<close>

lemma split_on_nonempty: "split_on c s \<noteq> []"
  by (induction s) (auto split: list.splits)

lemma get_timestamp_no_IndexError:
  assumes "\<forall>b. decode_utf8 L b \<noteq> Inl IndexError" "\<forall>s. strptime_TIME_FORMAT L s \<noteq> Inl IndexError"
  shows "get_timestamp L line \<noteq> Inl IndexError"
  using assms split_on_nonempty[of "CHR '',''"]
  by (auto simp: get_timestamp_def split: sum.splits list.splits)

lemma convert_item_no_IndexError:
  assumes "\<forall>v. conv v \<noteq> Inl IndexError"
  shows "convert_item conv key d \<noteq> Inl IndexError"
  using assms by (auto simp: convert_item_def split: option.splits sum.splits)

lemma to_float_no_IndexError:
  assumes "\<forall>s. py_float L s \<noteq> Inl IndexError"
  shows "to_float L v \<noteq> Inl IndexError"
  using assms by (auto simp: to_float_def split: jvalue.splits sum.splits)

lemma to_int_no_IndexError:
  assumes "\<forall>s. py_int L s \<noteq> Inl IndexError"
  shows "to_int L v \<noteq> Inl IndexError"
  using assms by (auto simp: to_int_def split: jvalue.splits sum.splits pyfloat.splits)

lemma convert_no_IndexError:
  assumes "\<forall>b. decode_utf8 L b \<noteq> Inl IndexError"
      and "\<forall>s. py_float L s \<noteq> Inl IndexError" "\<forall>s. py_int L s \<noteq> Inl IndexError"
  shows "convert_csv_to_json L line \<noteq> Inl IndexError"
proof -
  have f: "convert_item (to_float L) key d \<noteq> Inl IndexError" for key d
    by (rule convert_item_no_IndexError) (simp add: to_float_no_IndexError assms(2))
  have i: "convert_item (to_int L) key d \<noteq> Inl IndexError" for key d
    by (rule convert_item_no_IndexError) (simp add: to_int_no_IndexError assms(3))
  show ?thesis
    using assms(1) f i
    by (auto simp: convert_csv_to_json_def Let_def split: sum.splits)
qed

lemma sleep_secs_at_no_IndexError:
  "sleep_secs_at start first sf obs now \<noteq> Inl IndexError"
  by (auto simp: sleep_secs_at_def int_truediv_def Let_def split: sum.splits pyfloat.splits if_splits)

lemma time_sleep_no_IndexError: "time_sleep x \<noteq> Some IndexError"
  by (auto simp: time_sleep_def Let_def split: pyfloat.splits)

lemma publish_nonempty_no_IndexError:
  "tp \<noteq> [] \<Longrightarrow> fst (publish topic tp w) \<noteq> Some IndexError"
  by (auto simp: publish_def Let_def split: list.splits option.splits)

lemma flush_and_sleep_no_IndexError:
  assumes "tp \<noteq> []"
  shows "fst (flush_and_sleep clk topic first start sf obs tp w) \<noteq> Some IndexError"
  using publish_nonempty_no_IndexError[OF assms, of topic w]
        sleep_secs_at_no_IndexError time_sleep_no_IndexError
  by (auto simp: flush_and_sleep_def compute_sleep_secs_eq Let_def
      split: prod.splits option.splits sum.splits)

lemma first_record_below_threshold:
  assumes "sleep_secs_at start first sf first now = Inr x"
  shows "\<not> float_gt_int x 1"
proof -
  from sleep_secs_at_Inr[OF assms] obtain sim where
    sim: "int_truediv (seconds (datetime_sub first first)) sf = Inr sim"
    and x: "x = float_sub_int sim (seconds (datetime_sub now start))" by auto
  have "seconds (datetime_sub first first) = 0" by (simp add: datetime_sub_def)
  with sim have "sim = Fin 0 \<or> sim = NaN"
    by (auto simp: int_truediv_def fl_round_def split: pyfloat.splits if_splits)
  then have "\<not> float_gt_int sim 1" by (auto simp: float_gt_int_def)
  then show ?thesis unfolding x
    by (rule float_sub_int_not_gt) (simp_all add: seconds_datetime_sub seconds_of_day_range)
qed

lemma loop_body_first_record:
  assumes "get_timestamp L line = Inr first"
  shows "trace (snd (snd (loop_body L clk topic first start sf line tp w))) = trace w"
  using assms first_record_below_threshold
  by (auto simp: loop_body_def compute_sleep_secs_eq split: sum.splits)

lemma loop_body_None_nonempty:
  "loop_body L clk topic first start sf line tp w = (None, tp', w') \<Longrightarrow> tp' \<noteq> []"
  by (auto simp: loop_body_def compute_sleep_secs_eq
      split: sum.splits prod.splits option.splits if_splits)

lemma loop_body_no_IndexError:
  assumes "\<forall>b. decode_utf8 L b \<noteq> Inl IndexError" "\<forall>s. strptime_TIME_FORMAT L s \<noteq> Inl IndexError"
      and "\<forall>s. py_float L s \<noteq> Inl IndexError" "\<forall>s. py_int L s \<noteq> Inl IndexError"
      and "tp \<noteq> [] \<or> get_timestamp L line = Inr first"
  shows "fst (loop_body L clk topic first start sf line tp w) \<noteq> Some IndexError"
proof -
  note g = get_timestamp_no_IndexError[OF assms(1,2)]
  note c = convert_no_IndexError[OF assms(1,3,4)]
  from assms(5) show ?thesis
  proof
    assume tp: "tp \<noteq> []"
    have fl: "flush_and_sleep clk topic first start sf obs tp v \<noteq> (Some IndexError, a, b)"
      for obs v a b
      using flush_and_sleep_no_IndexError[OF tp, of clk topic first start sf obs v] by auto
    show ?thesis
      using g[of line] c[of line] sleep_secs_at_no_IndexError fl
      by (auto simp: loop_body_def compute_sleep_secs_eq
          split: sum.splits prod.splits option.splits if_splits)
  next
    assume f: "get_timestamp L line = Inr first"
    show ?thesis
      using f c[of line] sleep_secs_at_no_IndexError first_record_below_threshold
      by (auto simp: loop_body_def compute_sleep_secs_eq
          split: sum.splits prod.splits option.splits if_splits)
  qed
qed

lemma simulate_loop_no_IndexError:
  assumes "\<forall>b. decode_utf8 L b \<noteq> Inl IndexError" "\<forall>s. strptime_TIME_FORMAT L s \<noteq> Inl IndexError"
      and "\<forall>s. py_float L s \<noteq> Inl IndexError" "\<forall>s. py_int L s \<noteq> Inl IndexError"
  shows "tp \<noteq> [] \<or> (lines \<noteq> [] \<and> get_timestamp L (hd lines) = Inr first) \<Longrightarrow>
         simulate_loop L clk topic first start sf lines tp w = (r, tp', w') \<Longrightarrow>
         r \<noteq> Some IndexError \<and> (r = None \<longrightarrow> tp' \<noteq> [])"
proof (induction lines arbitrary: tp w)
  case Nil
  then show ?case by auto
next
  case (Cons line rest)
  let ?w0 = "w\<lparr>pos := Suc (pos w)\<rparr>"
  obtain r1 tp1 w1 where b: "loop_body L clk topic first start sf line tp ?w0 = (r1, tp1, w1)"
    by (cases "loop_body L clk topic first start sf line tp ?w0") auto
  from Cons.prems(1) have "tp \<noteq> [] \<or> get_timestamp L line = Inr first" by auto
  from loop_body_no_IndexError[OF assms this, of clk topic start sf ?w0] b
  have r1: "r1 \<noteq> Some IndexError" by simp
  show ?case
  proof (cases r1)
    case None
    with b have "tp1 \<noteq> []" by (auto dest: loop_body_None_nonempty)
    then have "tp1 \<noteq> [] \<or> (rest \<noteq> [] \<and> get_timestamp L (hd rest) = Inr first)" by simp
    from Cons.IH[OF this, of w1] Cons.prems(2) b None show ?thesis by simp
  next
    case (Some e)
    with b r1 Cons.prems(2) show ?thesis by auto
  qed
qed

lemma main_never_flushes_empty:
  assumes "\<forall>b. decode_utf8 L b \<noteq> Inl IndexError" "\<forall>s. strptime_TIME_FORMAT L s \<noteq> Inl IndexError"
      and "\<forall>s. py_float L s \<noteq> Inl IndexError" "\<forall>s. py_int L s \<noteq> Inl IndexError"
      and "1 < length src"
  shows "fst (main L clk topic_exists speedFactor project src) \<noteq> Some IndexError"
proof (cases "get_timestamp L (src ! 1)")
  case (Inl e)
  with get_timestamp_no_IndexError[OF assms(1,2), of "src ! 1"] show ?thesis
    by (auto simp: main_eq[OF assms(5)] Let_def)
next
  case (Inr first)
  let ?w = "\<lparr>pos = 1, ticks = 1,
             trace = (GetTopic (topic_path project TOPIC) #
                      (if topic_exists then [LogReusing TOPIC]
                       else [CreateTopic (topic_path project TOPIC), LogCreating TOPIC]))
                     @ [LogSending first]\<rparr>"
  from assms(5) have d: "drop 1 src = src ! 1 # drop 2 src"
    by (metis Cons_nth_drop_Suc One_nat_def Suc_1)
  obtain r tp' w' where l: "simulate_loop L clk (topic_path project TOPIC) first (clk 0) speedFactor
          (drop 1 src) [] ?w = (r, tp', w')"
    by (cases "simulate_loop L clk (topic_path project TOPIC) first (clk 0) speedFactor
          (drop 1 src) [] ?w") auto
  have "[] \<noteq> ([] :: json list) \<or> (drop 1 src \<noteq> [] \<and> get_timestamp L (hd (drop 1 src)) = Inr first)"
    using d Inr by simp
  from simulate_loop_no_IndexError[OF assms(1-4) this l]
  have r: "r \<noteq> Some IndexError" "r = None \<longrightarrow> tp' \<noteq> []" by auto
  have "main L clk topic_exists speedFactor project src =
          simulate L clk (topic_path project TOPIC) src first (clk 0) speedFactor ?w"
    using Inr by (simp add: main_eq[OF assms(5)] Let_def)
  then show ?thesis
    using l r publish_nonempty_no_IndexError[of tp' "topic_path project TOPIC" w']
    by (cases r) (auto simp: simulate_def)
qed

subsection \<open>A sleep that time.sleep refuses\<close>

text \<open>
  Claim C5 does not hold for every record. \<open>time.sleep\<close> raises \<open>OverflowError\<close>
  for a duration that does not fit its nanosecond count, and nothing in the program
  keeps the required sleep below that. With \<open>--speedFactor\<close> at \<open>2^-40\<close> (about
  \<open>9.09e-13\<close>) and a second record two seconds after the first, the required sleep is
  \<open>2^41\<close> seconds: the turn flushes the first record, logs the sleep, and the call of
  \<open>time.sleep\<close> ends the run. The turn has not slept, and the second record is neither
  appended nor ever published.
\<close>

theorem oversized_sleep_aborts:
  "main ascii_lib (\<lambda>n. t0) True (Fin (1 / 1099511627776)) ''p'' [header, rec_a, rec_c] =
     (Some OverflowError,
      \<lparr>pos = 3, ticks = 4,
       trace = [GetTopic (topic_path ''p'' TOPIC), LogReusing TOPIC, LogSending t0,
                Print row_a, LogPublishing 1 (JStr ''2008-11-01 00:00:00''),
                Publish (topic_path ''p'' TOPIC) row_a,
                LogSleeping (Fin 2199023255552)]\<rparr>)"
  by (simp add: main_eq simulate_def loop_body_def flush_and_sleep_def
      compute_sleep_secs_eq sleep_secs_at_def seconds_after tiny_speed_factor sub_zero
      ts_rec_a ts_rec_c conv_rec_a conv_rec_c publish_Cons row_timestamps float_gt_int_def
      emit_def)

end
